theory Spec2Isabelle
  imports Main
begin

section \<open>JavaScript values, options and paths\<close>

text \<open>
  The tool is a Node.js script (\<^verbatim>\<open>src/unnamed/part_000\<close>) with three helper modules
  (\<^verbatim>\<open>utils.js\<close>, \<^verbatim>\<open>async-fs-utils.js\<close>, \<^verbatim>\<open>async-line-remove.js\<close>).  The values that
  flow through its promise chain are numbers, \<^verbatim>\<open>undefined\<close>, strings, booleans and arrays.
\<close>

datatype jsval = JUndefined | JNum int | JStr string | JBool bool | JArr "jsval list"

text \<open>A rejected promise carries an error; only its presence matters to the control flow.\<close>

datatype error = Error string | TypeError string

text \<open>
  The parsed command line (\<^verbatim>\<open>options\<close>, lines 33-44).  An option that may be
  \<^verbatim>\<open>undefined\<close> or \<^verbatim>\<open>null\<close> is an \<open>option\<close>; \<^verbatim>\<open>packagename\<close> always has its default.
  The hyphenated keys \<^verbatim>\<open>save-packagexml\<close>, \<^verbatim>\<open>save-dir\<close> and \<^verbatim>\<open>sfdx-verbose\<close> are written
  with an underscore, and \<^verbatim>\<open>help\<close> is \<open>help_flag\<close>.
\<close>

record options =
  parseError :: bool
  help_flag :: bool
  org1 :: "string option"
  org2 :: "string option"
  packagename :: string
  packagexml :: "string option"
  save_packagexml :: "string option"
  save_dir :: "string option"
  verbose :: bool
  sfdx_verbose :: bool

text \<open>JavaScript truthiness of a string-valued option: \<^verbatim>\<open>undefined\<close> and \<^verbatim>\<open>''\<close> are falsy.\<close>

fun truthy :: "string option \<Rightarrow> bool" where
  "truthy None = False"
| "truthy (Some s) = (s \<noteq> [])"

subsection \<open>utils.js\<close>

text \<open>
  \<^verbatim>\<open>path.join\<close> belongs to the Node.js runtime and depends on the platform, so it is a
  parameter \<open>pj\<close> of every function that calls it: \<open>pj [a, b]\<close> is \<^verbatim>\<open>path.join(a, b)\<close>.
\<close>

type_synonym pathJoin = "string list \<Rightarrow> string"

definition getPackageXMLPath :: "pathJoin \<Rightarrow> options \<Rightarrow> string \<Rightarrow> string" where
  "getPackageXMLPath pj opts base =
     (if truthy (packagexml opts) then pj [base, ''unpackaged'', ''package.xml'']
      else pj [base, ''package.xml''])"

text \<open>
  \<^verbatim>\<open>new Date()\<close> as seen through the six UTC getters that \<^verbatim>\<open>getTimestamp\<close> reads.
  \<open>getUTCMonth\<close> is JavaScript's month index: 0 is January, 11 is December.
\<close>

record date =
  getUTCFullYear :: nat
  getUTCMonth :: nat
  getUTCDate :: nat
  getUTCHours :: nat
  getUTCMinutes :: nat
  getUTCSeconds :: nat

definition digitChar :: "nat \<Rightarrow> char" where
  "digitChar n = ''0123456789'' ! n"

text \<open>The decimal numeral that a template literal produces for a non-negative integer.\<close>

function showNat :: "nat \<Rightarrow> string" where
  "showNat n = (if n < 10 then [digitChar n] else showNat (n div 10) @ [digitChar (n mod 10)])"
  by pat_completeness auto
termination
  by (relation "measure id") auto

definition pad :: "nat \<Rightarrow> string" where
  "pad v = (if v < 10 then ''0'' @ showNat v else showNat v)"

definition getTimestamp :: "date \<Rightarrow> string" where
  "getTimestamp d =
     showNat (getUTCFullYear d) @ ''-'' @ pad (getUTCMonth d) @ ''-'' @ pad (getUTCDate d) @ ''T'' @
     pad (getUTCHours d) @ '':'' @ pad (getUTCMinutes d) @ '':'' @ pad (getUTCSeconds d) @ ''Z''"

section \<open>The file system\<close>

text \<open>
  A file system maps a path to what is stored there.  Directories above a path and
  permissions are not part of this map; whether the operating system lets a copy through is
  an input of \<open>copyFile\<close> below.
\<close>

datatype node = File string | Dir

type_synonym fs = "string \<rightharpoonup> node"

subsection \<open>async-fs-utils.js\<close>

text \<open>
  Every function of the module returns a promise.  A promise that has settled is a value of
  \<open>error + 'a\<close> (\<open>Inl\<close> is the rejection), paired with the file system it leaves behind
  where it writes.
\<close>

definition deleteFile :: "fs \<Rightarrow> string \<Rightarrow> (error + unit) \<times> fs" where
  "deleteFile fs path =
     (case fs path of
        None \<Rightarrow> (Inr (), fs)
      | Some (File _) \<Rightarrow> (Inr (), fs(path := None))
      | Some Dir \<Rightarrow> (Inl (Error ''unlink failed''), fs))"

text \<open>
  \<^verbatim>\<open>copyFile\<close> hands the copy itself to the runtime's \<^verbatim>\<open>fs.copyFile\<close> and rejects on any
  error that it reports (lines 25-27).  \<open>fsCopyFile src dest\<close> says whether the runtime
  lets the copy of \<open>src\<close> to \<open>dest\<close> through: the directory of \<open>dest\<close> exists, is a
  directory and can be written to, and so on.  A source that is not a file is an error in any
  case, and a copy that fails leaves no file behind.
\<close>

type_synonym fsCopy = "string \<Rightarrow> string \<Rightarrow> bool"

definition copyFile :: "fsCopy \<Rightarrow> fs \<Rightarrow> string \<Rightarrow> string \<Rightarrow> bool \<Rightarrow> (error + unit) \<times> fs" where
  "copyFile fsCopyFile fs src dest force =
     (if fs src = None then (Inl (Error ''Source does not exist''), fs)
      else if fs dest \<noteq> None \<and> \<not> force then (Inl (Error ''Destination exists''), fs)
      else
        (case (if fs dest \<noteq> None then deleteFile fs dest else (Inr (), fs)) of
           (Inl err, fs') \<Rightarrow> (Inl err, fs')
         | (Inr _, fs') \<Rightarrow>
             (case fs' src of
                Some (File str) \<Rightarrow>
                  if fsCopyFile src dest then (Inr (), fs'(dest \<mapsto> File str))
                  else (Inl (Error ''Unable to copy source to destination''), fs')
              | _ \<Rightarrow> (Inl (Error ''Unable to copy source to destination''), fs'))))"

definition readFile :: "fs \<Rightarrow> string \<Rightarrow> error + string" where
  "readFile fs path =
     (case fs path of
        None \<Rightarrow> Inl (Error ''Supplied path doesn't exist'')
      | Some Dir \<Rightarrow> Inl (Error ''Unable to read file'')
      | Some (File str) \<Rightarrow> Inr str)"

section \<open>Lines of a text\<close>

text \<open>
  A text is a sequence of lines, each ended by a line feed; a last line without one counts
  when it is not empty.
\<close>

abbreviation LF :: char where
  "LF \<equiv> CHR 0x0A"

function lines_of :: "string \<Rightarrow> string list" where
  "lines_of [] = []"
| "lines_of (c # cs) =
     takeWhile (\<lambda>x. x \<noteq> LF) (c # cs) # lines_of (drop 1 (dropWhile (\<lambda>x. x \<noteq> LF) (c # cs)))"
  by pat_completeness auto
termination
proof (relation "measure length")
  fix c :: char and cs :: string
  have "length (dropWhile (\<lambda>x. x \<noteq> LF) cs) \<le> length cs"
    by (rule length_dropWhile_le)
  then show "(drop 1 (dropWhile (\<lambda>x. x \<noteq> LF) (c # cs)), c # cs) \<in> measure length"
    by (cases "c = LF") auto
qed simp

definition unlines :: "string list \<Rightarrow> string" where
  "unlines ls = concat (map (\<lambda>l. l @ [LF]) ls)"

section \<open>The namespace marker\<close>

subsection \<open>The pattern\<close>

text \<open>
  The regular expression of line 153,
  \<^verbatim>\<open>/<namespacePrefix>[-_A-Za-z0-9]+<\/namespacePrefix>/\<close>.  The character class does not
  contain \<^verbatim>\<open><\<close>, so the greedy run of class characters is the only candidate for the
  middle part: \<open>matchAt s\<close> says that the pattern matches a prefix of \<open>s\<close>, and \<open>re s\<close>
  that it matches somewhere in \<open>s\<close> (\<^verbatim>\<open>re.test(s)\<close>).
\<close>

definition nsChar :: "char \<Rightarrow> bool" where
  "nsChar c =
     (let n = (of_char c :: nat)
      in c = CHR ''-'' \<or> c = CHR ''_'' \<or> (65 \<le> n \<and> n \<le> 90) \<or> (97 \<le> n \<and> n \<le> 122) \<or>
         (48 \<le> n \<and> n \<le> 57))"

fun stripPrefix :: "string \<Rightarrow> string \<Rightarrow> string option" where
  "stripPrefix [] s = Some s"
| "stripPrefix (p # ps) [] = None"
| "stripPrefix (p # ps) (c # cs) = (if p = c then stripPrefix ps cs else None)"

definition matchAt :: "string \<Rightarrow> bool" where
  "matchAt s =
     (case stripPrefix ''<namespacePrefix>'' s of
        None \<Rightarrow> False
      | Some r \<Rightarrow>
          takeWhile nsChar r \<noteq> [] \<and>
          stripPrefix ''</namespacePrefix>'' (dropWhile nsChar r) \<noteq> None)"

fun re :: "string \<Rightarrow> bool" where
  "re [] = False"
| "re (c # cs) = (matchAt (c # cs) \<or> re cs)"

subsection \<open>The packages line-number and line-replace\<close>

text \<open>
  Modelled from the spec: the npm package \<^verbatim>\<open>line-number\<close> is a dependency of the repository
  and not among its sources.  The spec (4.5, step 1) has it scan the manifest text for the
  lines that match a pattern.  \<^verbatim>\<open>lineNumber(contents, re)\<close> returns one object per matching
  line, with the line and its number counted from 1; the object's third field, the matched
  span, is never read by the script and is left out.
\<close>

record lineMatch =
  line :: string
  number :: nat

fun lineNumberFrom :: "nat \<Rightarrow> (string \<Rightarrow> bool) \<Rightarrow> string list \<Rightarrow> lineMatch list" where
  "lineNumberFrom i rx [] = []"
| "lineNumberFrom i rx (l # ls) =
     (if rx l then [\<lparr>line = l, number = i + 1\<rparr>] else []) @ lineNumberFrom (i + 1) rx ls"

definition lineNumber :: "string \<Rightarrow> (string \<Rightarrow> bool) \<Rightarrow> lineMatch list" where
  "lineNumber contents rx = lineNumberFrom 0 rx (lines_of contents)"

text \<open>
  Modelled from the spec: the npm package \<^verbatim>\<open>line-replace\<close> is a dependency of the repository
  and not among its sources.  The spec (4.5, step 2) has the stripper remove one whole line,
  keep every other line in its order, and insert no blank line in its place.
  \<^verbatim>\<open>lineReplace({file, line, text, addNewLine})\<close> rewrites the file line by line with a
  running counter: the line whose number is \<open>line\<close> is written as \<open>text\<close>, followed by a
  line feed only if \<open>addNewLine\<close>; every other line is written as it is, followed by a
  line feed.  A file that is not there is left alone.
\<close>

fun replaceLines :: "nat \<Rightarrow> nat \<Rightarrow> string \<Rightarrow> bool \<Rightarrow> string list \<Rightarrow> string" where
  "replaceLines currentLine n text addNewLine [] = []"
| "replaceLines currentLine n text addNewLine (l # ls) =
     (if currentLine + 1 = n then text @ (if addNewLine then [LF] else []) else l @ [LF]) @
     replaceLines (currentLine + 1) n text addNewLine ls"

definition lineReplace :: "fs \<Rightarrow> string \<Rightarrow> nat \<Rightarrow> string \<Rightarrow> bool \<Rightarrow> fs" where
  "lineReplace fs file n text addNewLine =
     (case fs file of
        Some (File contents) \<Rightarrow>
          fs(file \<mapsto> File (replaceLines 0 n text addNewLine (lines_of contents)))
      | _ \<Rightarrow> fs)"

subsection \<open>async-line-remove.js\<close>

text \<open>The promise of \<^verbatim>\<open>lineRemove\<close> is never rejected: the call has no \<^verbatim>\<open>reject\<close> path.\<close>

definition lineRemove :: "fs \<Rightarrow> string \<Rightarrow> nat \<Rightarrow> fs" where
  "lineRemove fs file n = lineReplace fs file n [] False"

subsection \<open>Detecting and removing the marker (lines 153-165)\<close>

text \<open>
  For one of the two manifests: \<open>contents\<close> is what was read from \<open>file\<close>; the line is
  removed when exactly one line matches.
\<close>

definition stripMarker :: "fs \<Rightarrow> string \<Rightarrow> string \<Rightarrow> fs" where
  "stripMarker fs file contents =
     (let lineNoResult = lineNumber contents re
      in if length lineNoResult = 1 then lineRemove fs file (number (lineNoResult ! 0)) else fs)"

section \<open>The differ\<close>

subsection \<open>Change objects\<close>

text \<open>
  A JavaScript object is the list of its own properties; \<^verbatim>\<open>hasOwnProperty\<close> asks whether a
  key is among them, whatever its value (a key bound to \<^verbatim>\<open>undefined\<close> is still there).
\<close>

type_synonym jsobj = "(string \<times> jsval) list"

definition hasOwnProperty :: "jsobj \<Rightarrow> string \<Rightarrow> bool" where
  "hasOwnProperty obj k = (map_of obj k \<noteq> None)"

subsection \<open>The package diff\<close>

text \<open>
  \<^verbatim>\<open>String.prototype.trim\<close>, on the white space characters of ASCII: space, tab, line feed,
  vertical tab, form feed and carriage return.
\<close>

definition isSpace :: "char \<Rightarrow> bool" where
  "isSpace c =
     (c = CHR '' '' \<or> c = CHR 0x09 \<or> c = LF \<or> c = CHR 0x0B \<or> c = CHR 0x0C \<or> c = CHR 0x0D)"

definition trim :: "string \<Rightarrow> string" where
  "trim s = rev (dropWhile isSpace (rev (dropWhile isSpace s)))"

text \<open>
  Modelled from the spec: the npm package \<^verbatim>\<open>diff\<close> is a dependency of the repository and
  not among its sources.  The spec (4.6) has \<^verbatim>\<open>diffTrimmedLines\<close> compare two texts line by
  line, each line trimmed of leading and trailing whitespace before the comparison, and
  return a minimal edit script, as contiguous runs of lines that are added, removed or
  unchanged and carry the text.

  A run of added or removed lines is a change object that owns both keys \<^verbatim>\<open>added\<close> and
  \<^verbatim>\<open>removed\<close>, the one that does not apply being \<^verbatim>\<open>undefined\<close>; a run of unchanged lines owns
  neither.  The script relies on this: its filter asks for the key \<^verbatim>\<open>added\<close> and line 193
  then prints \<^verbatim>\<open>REMOVED\<close> for the parts whose \<^verbatim>\<open>added\<close> is not truthy.
\<close>

datatype tag = Common | Added | Removed

type_synonym edit = "tag \<times> string"

fun editScript :: "string list \<Rightarrow> string list \<Rightarrow> edit list" where
  "editScript [] ys = map (Pair Added) ys"
| "editScript (x # xs) [] = map (Pair Removed) (x # xs)"
| "editScript (x # xs) (y # ys) =
     (if trim x = trim y then (Common, y) # editScript xs ys
      else
        (let r = (Removed, x) # editScript xs (y # ys);
             a = (Added, y) # editScript (x # xs) ys
         in if length r \<le> length a then r else a))"

fun components :: "edit list \<Rightarrow> (tag \<times> string list) list" where
  "components [] = []"
| "components ((t, l) # es) =
     (case components es of
        [] \<Rightarrow> [(t, [l])]
      | (t', ls) # cs \<Rightarrow> if t' = t then (t, l # ls) # cs else (t, [l]) # (t', ls) # cs)"

fun changeObject :: "tag \<times> string list \<Rightarrow> jsobj" where
  "changeObject (Common, ls) =
     [(''count'', JNum (int (length ls))), (''value'', JStr (unlines ls))]"
| "changeObject (Added, ls) =
     [(''count'', JNum (int (length ls))), (''added'', JBool True), (''removed'', JUndefined),
      (''value'', JStr (unlines ls))]"
| "changeObject (Removed, ls) =
     [(''count'', JNum (int (length ls))), (''added'', JUndefined), (''removed'', JBool True),
      (''value'', JStr (unlines ls))]"

definition diffTrimmedLines :: "string \<Rightarrow> string \<Rightarrow> jsobj list" where
  "diffTrimmedLines oldStr newStr =
     map changeObject (components (editScript (lines_of oldStr) (lines_of newStr)))"

section \<open>The script\<close>

subsection \<open>Promises\<close>

text \<open>
  \<^verbatim>\<open>Promise.all\<close> of settled promises: the array of the values when all are fulfilled,
  and a rejection otherwise (here the one that comes first in the array; the script only
  logs it).
\<close>

fun promiseAll :: "(error + 'a) list \<Rightarrow> error + 'a list" where
  "promiseAll [] = Inr []"
| "promiseAll (Inl err # ps) = Inl err"
| "promiseAll (Inr v # ps) = (case promiseAll ps of Inl err \<Rightarrow> Inl err | Inr vs \<Rightarrow> Inr (v # vs))"

text \<open>A promise fulfilled without a value, as \<^verbatim>\<open>copyFile\<close> returns, holds \<^verbatim>\<open>undefined\<close>.\<close>

fun undefinedResult :: "error + unit \<Rightarrow> error + jsval" where
  "undefinedResult (Inl err) = Inl err"
| "undefinedResult (Inr _) = Inr JUndefined"

subsection \<open>What the script is given\<close>

text \<open>
  Everything outside the repository that a run depends on: the save directory check at
  start-up (\<^verbatim>\<open>fs.existsSync\<close>), the SalesforceDX helper of either org
  (\<^verbatim>\<open>sfdx-bulk-helper\<close>), the temporary directories that \<^verbatim>\<open>createTempDir\<close> obtains from
  \<^verbatim>\<open>tmp\<close>, the extraction that \<^verbatim>\<open>unzipFile\<close> delegates to \<^verbatim>\<open>unzip2\<close>, the file system as it
  stands once both archives are extracted, the copies that the runtime's \<^verbatim>\<open>fs.copyFile\<close>
  lets through, and the clock at the two calls of \<^verbatim>\<open>getTimestamp\<close>.
\<close>

record world =
  existsSync :: "string \<Rightarrow> bool"
  ensureOrgConnected1 :: "error + unit"
  ensureOrgConnected2 :: "error + unit"
  createTempDir1 :: "error + string"
  createTempDir2 :: "error + string"
  executeSFDXCommand1 :: "string \<Rightarrow> error + unit"
  executeSFDXCommand2 :: "string \<Rightarrow> error + unit"
  unzipFile :: "string \<Rightarrow> string \<Rightarrow> error + unit"
  extracted :: fs
  fsCopyFile :: fsCopy
  now1 :: date
  now2 :: date

subsection \<open>Command line check (lines 45-70)\<close>

text \<open>
  \<^verbatim>\<open>argsValid\<close> also records a message in \<^verbatim>\<open>options\<close> for the usage text; logging and
  printing are not part of the model.
\<close>

definition argsValid :: "options \<Rightarrow> (string \<Rightarrow> bool) \<Rightarrow> bool" where
  "argsValid opts exists_sync =
     (if parseError opts \<or> help_flag opts then False
      else if \<not> (truthy (org1 opts) \<and> truthy (org2 opts)) then False
      else if truthy (save_packagexml opts) \<and>
              save_packagexml opts \<noteq> Some ''diff'' \<and> save_packagexml opts \<noteq> Some ''always'' \<and>
              save_packagexml opts \<noteq> Some ''never'' then False
      else if truthy (save_dir opts) \<and> \<not> exists_sync (case_option [] id (save_dir opts)) then False
      else True)"

subsection \<open>Retrieval (lines 113-127)\<close>

definition DEFAULT_WAIT :: nat where
  "DEFAULT_WAIT = 100"

definition retrieveCmd :: "options \<Rightarrow> string" where
  "retrieveCmd opts =
     (if truthy (packagexml opts) then ''--unpackaged '' @ case_option [] id (packagexml opts)
      else ''--singlepackage --packagenames '' @ packagename opts) @
     '' --wait '' @ showNat DEFAULT_WAIT"

subsection \<open>Reading and inspecting the manifests (lines 136-173)\<close>

definition readPackageXmls :: "pathJoin \<Rightarrow> options \<Rightarrow> fs \<Rightarrow> string \<Rightarrow> string \<Rightarrow> error + string list" where
  "readPackageXmls pj opts fs tmpdir1 tmpdir2 =
     promiseAll [readFile fs (getPackageXMLPath pj opts tmpdir1),
                 readFile fs (getPackageXMLPath pj opts tmpdir2)]"

text \<open>
  The two removals run on different files; the model performs them one after the other,
  each with the line number found in the contents read before.
\<close>

definition inspect :: "pathJoin \<Rightarrow> options \<Rightarrow> fs \<Rightarrow> string \<Rightarrow> string \<Rightarrow> (error + string list) \<times> fs" where
  "inspect pj opts fs tmpdir1 tmpdir2 =
     (if truthy (packagexml opts) then (readPackageXmls pj opts fs tmpdir1 tmpdir2, fs)
      else
        (case readPackageXmls pj opts fs tmpdir1 tmpdir2 of
           Inl err \<Rightarrow> (Inl err, fs)
         | Inr fileContents \<Rightarrow>
             (let fs1 = stripMarker fs (getPackageXMLPath pj opts tmpdir1) (fileContents ! 0);
                  fs2 = stripMarker fs1 (getPackageXMLPath pj opts tmpdir2) (fileContents ! 1)
              in (readPackageXmls pj opts fs2 tmpdir1 tmpdir2, fs2))))"

subsection \<open>Comparing (lines 175-200)\<close>

definition filteredChanges :: "jsobj list \<Rightarrow> jsobj list" where
  "filteredChanges changes =
     filter (\<lambda>part. hasOwnProperty part ''changed'' \<or> hasOwnProperty part ''added'') changes"

definition compareContents :: "string list \<Rightarrow> int" where
  "compareContents fileContents =
     (let changes = diffTrimmedLines (fileContents ! 0) (fileContents ! 1)
      in if length (filteredChanges changes) \<noteq> 0 then 1 else 0)"

subsection \<open>Saving (lines 202-214)\<close>

definition saveTriggered :: "options \<Rightarrow> int \<Rightarrow> bool" where
  "saveTriggered opts rc =
     ((truthy (save_packagexml opts) \<and> Some ''always'' = save_packagexml opts) \<or>
      (Some ''diff'' = save_packagexml opts \<and> rc = 1))"

text \<open>
  The two destinations.  \<^verbatim>\<open>path.join\<close> throws a \<^verbatim>\<open>TypeError\<close> when the save directory is
  not a string, before either copy has started.  Both copies are started, without
  \<^verbatim>\<open>force\<close>, and neither is cancelled when the other is rejected; they write to different
  paths, and the model performs them one after the other.  It lets the second copy finish
  when the first is rejected, where the process may exit before the second file is there.
\<close>

definition saveDest :: "pathJoin \<Rightarrow> string \<Rightarrow> string \<Rightarrow> date \<Rightarrow> string" where
  "saveDest pj dir k now = pj [dir, ''package-'' @ k @ ''-'' @ getTimestamp now @ ''.xml'']"

definition savePackageXmls ::
  "fsCopy \<Rightarrow> pathJoin \<Rightarrow> options \<Rightarrow> fs \<Rightarrow> string \<Rightarrow> string \<Rightarrow> date \<Rightarrow> date \<Rightarrow> int \<Rightarrow>
     (error + jsval) \<times> fs" where
  "savePackageXmls cp pj opts fs tmpdir1 tmpdir2 d1 d2 rc =
     (if saveTriggered opts rc then
        (case save_dir opts of
           None \<Rightarrow> (Inl (TypeError ''The path argument must be of type string''), fs)
         | Some dir \<Rightarrow>
             (let (r1, fs1) = copyFile cp fs (getPackageXMLPath pj opts tmpdir1) (saveDest pj dir ''1'' d1) False;
                  (r2, fs2) = copyFile cp fs1 (getPackageXMLPath pj opts tmpdir2) (saveDest pj dir ''2'' d2) False
              in (case promiseAll [Inr (JNum rc), undefinedResult r1, undefinedResult r2] of
                    Inl err \<Rightarrow> (Inl err, fs2)
                  | Inr vs \<Rightarrow> (Inr (JArr vs), fs2))))
      else (Inr (JNum rc), fs))"

subsection \<open>The whole run\<close>

text \<open>
  The promise chain of lines 99-224.  Its result is the value that the last \<^verbatim>\<open>then\<close> hands to
  \<^verbatim>\<open>process.exit\<close>, or the rejection that the final \<^verbatim>\<open>catch\<close> receives.
\<close>

definition retrieveManifests :: "pathJoin \<Rightarrow> options \<Rightarrow> world \<Rightarrow> error + string \<times> string" where
  "retrieveManifests pj opts w =
     (case promiseAll [ensureOrgConnected1 w, ensureOrgConnected2 w] of
        Inl err \<Rightarrow> Inl err
      | Inr _ \<Rightarrow>
     (case promiseAll [createTempDir1 w, createTempDir2 w] of
        Inl err \<Rightarrow> Inl err
      | Inr tempdirs \<Rightarrow>
     (let tmpdir1 = tempdirs ! 0; tmpdir2 = tempdirs ! 1; cmd = retrieveCmd opts
      in
     (case promiseAll
             [executeSFDXCommand1 w (''force:mdapi:retrieve '' @ cmd @ '' --retrievetargetdir '' @ tmpdir1),
              executeSFDXCommand2 w (''force:mdapi:retrieve '' @ cmd @ '' --retrievetargetdir '' @ tmpdir2)] of
        Inl err \<Rightarrow> Inl err
      | Inr _ \<Rightarrow>
     (case promiseAll
             [unzipFile w (pj [tmpdir1, ''unpackaged.zip'']) tmpdir1,
              unzipFile w (pj [tmpdir2, ''unpackaged.zip'']) tmpdir2] of
        Inl err \<Rightarrow> Inl err
      | Inr _ \<Rightarrow> Inr (tmpdir1, tmpdir2))))))"

definition pipeline :: "pathJoin \<Rightarrow> options \<Rightarrow> world \<Rightarrow> error + jsval" where
  "pipeline pj opts w =
     (case retrieveManifests pj opts w of
        Inl err \<Rightarrow> Inl err
      | Inr (tmpdir1, tmpdir2) \<Rightarrow>
     (case inspect pj opts (extracted w) tmpdir1 tmpdir2 of
        (Inl err, fs') \<Rightarrow> Inl err
      | (Inr fileContents, fs') \<Rightarrow>
          fst (savePackageXmls (fsCopyFile w) pj opts fs' tmpdir1 tmpdir2 (now1 w) (now2 w)
                 (compareContents fileContents))))"

text \<open>
  The first call of \<^verbatim>\<open>process.exit\<close> that the script makes: \<open>Exit v\<close> is the call
  \<^verbatim>\<open>process.exit(v)\<close>, at line 69 for a rejected command line, at line 219 at the end of the
  chain, and at line 223 in the final \<^verbatim>\<open>catch\<close> when a step of the chain is rejected.  The
  script fixes the exit status when \<open>v\<close> is a number; what happens for any other value is
  decided by the Node.js runtime (\<open>exitStatus\<close> below).
\<close>

datatype outcome = Exit jsval

definition run :: "pathJoin \<Rightarrow> options \<Rightarrow> world \<Rightarrow> outcome" where
  "run pj opts w =
     (if \<not> argsValid opts (existsSync w) then Exit (JNum 0)
      else
        (case pipeline pj opts w of
           Inl err \<Rightarrow> Exit (JNum 1)
         | Inr rc \<Rightarrow> Exit rc))"

subsection \<open>The exit status\<close>




section \<open>Notions used in the statements\<close>

text \<open>The paths whose content differs between two states of the file system.\<close>

definition written :: "fs \<Rightarrow> fs \<Rightarrow> string set" where
  "written fs fs' = {p. fs' p \<noteq> fs p}"

text \<open>
  The ranges of the UTC getters of a JavaScript date whose year has four digits, and the
  shape \<^verbatim>\<open>YYYY-MM-DDTHH:MM:SSZ\<close>.
\<close>

definition validDate :: "date \<Rightarrow> bool" where
  "validDate d =
     (1000 \<le> getUTCFullYear d \<and> getUTCFullYear d \<le> 9999 \<and> getUTCMonth d \<le> 11 \<and>
      1 \<le> getUTCDate d \<and> getUTCDate d \<le> 31 \<and> getUTCHours d \<le> 23 \<and>
      getUTCMinutes d \<le> 59 \<and> getUTCSeconds d \<le> 59)"

definition calendarMonth :: "date \<Rightarrow> nat" where
  "calendarMonth d = getUTCMonth d + 1"

definition twoDigits :: "nat \<Rightarrow> string" where
  "twoDigits n = [digitChar (n div 10), digitChar (n mod 10)]"

definition fourDigits :: "nat \<Rightarrow> string" where
  "fourDigits n =
     [digitChar (n div 1000), digitChar (n div 100 mod 10), digitChar (n div 10 mod 10),
      digitChar (n mod 10)]"

text \<open>
  The timestamp as the spec words it: a four-digit year and two-digit, zero-padded fields,
  the month field being one less than the calendar month.
\<close>

definition specTimestamp :: "date \<Rightarrow> string" where
  "specTimestamp d =
     fourDigits (getUTCFullYear d) @ ''-'' @ twoDigits (calendarMonth d - 1) @ ''-'' @
     twoDigits (getUTCDate d) @ ''T'' @ twoDigits (getUTCHours d) @ '':'' @
     twoDigits (getUTCMinutes d) @ '':'' @ twoDigits (getUTCSeconds d) @ ''Z''"

definition isDigit :: "char \<Rightarrow> bool" where
  "isDigit c = (c \<in> set ''0123456789'')"

fun isTimestamp :: "string \<Rightarrow> bool" where
  "isTimestamp [y1, y2, y3, y4, s1, m1, m2, s2, d1, d2, t, h1, h2, c1, n1, n2, c2, e1, e2, z] =
     (list_all isDigit [y1, y2, y3, y4, m1, m2, d1, d2, h1, h2, n1, n2, e1, e2] \<and>
      [s1, s2, t, c1, c2, z] = ''--T::Z'')"
| "isTimestamp _ = False"

text \<open>
  Modelled from the spec: \<^verbatim>\<open>path.join\<close> is not among the sources.  The spec (4.4) writes
  the joined paths as \<^verbatim>\<open>base/package.xml\<close> and \<^verbatim>\<open>base/unpackaged/package.xml\<close>: the non-empty
  segments separated by \<^verbatim>\<open>/\<close>, which is what \<^verbatim>\<open>path.join\<close> returns on POSIX when the
  segments are already normalised.  \<open>slashJoin\<close> is this instance of the parameter, for the
  statements that spell a path out.
\<close>

definition slashJoin :: pathJoin where
  "slashJoin xs =
     (let ys = filter (\<lambda>x. x \<noteq> []) xs
      in if ys = [] then ''.''
         else foldr (\<lambda>x acc. if acc = [] then x else x @ ''/'' @ acc) ys [])"

section \<open>Example inputs\<close>

text \<open>
  A run with the default options against two orgs whose manifests are retrieved by package
  name into \<^verbatim>\<open>/tmp/t1\<close> and \<^verbatim>\<open>/tmp/t2\<close>, on 5 January 2026 at 09:30:07 UTC, with \<^verbatim>\<open>/out\<close>
  as the save directory.
\<close>

definition exampleOptions :: options where
  "exampleOptions =
     \<lparr>parseError = False, help_flag = False, org1 = Some ''lekkim1'', org2 = Some ''lekkim2'',
      packagename = ''becem'', packagexml = None, save_packagexml = Some ''never'',
      save_dir = Some ''/out'', verbose = False, sfdx_verbose = False\<rparr>"

definition exampleDate :: date where
  "exampleDate =
     \<lparr>getUTCFullYear = 2026, getUTCMonth = 0, getUTCDate = 5, getUTCHours = 9,
      getUTCMinutes = 30, getUTCSeconds = 7\<rparr>"

definition manifestWithMarker :: string where
  "manifestWithMarker = ''<a/>'' @ [LF] @ ''  <namespacePrefix>ns1</namespacePrefix>'' @ [LF] @ ''<b/>''"

definition manifestAB :: string where
  "manifestAB = ''<a/>'' @ [LF] @ ''<b/>'' @ [LF]"

definition manifestAC :: string where
  "manifestAC = ''<a/>'' @ [LF] @ ''<c/>'' @ [LF]"

definition manifestTwoMarkers :: string where
  "manifestTwoMarkers =
     ''<namespacePrefix>ns1</namespacePrefix>'' @ [LF] @ ''<a/>'' @ [LF] @
     ''<namespacePrefix>ns_2</namespacePrefix>'' @ [LF]"

definition manifestOtherMarker :: string where
  "manifestOtherMarker = ''<a/>'' @ [LF] @ ''<namespacePrefix>ns2</namespacePrefix>'' @ [LF] @ ''<b/>'' @ [LF]"

text \<open>The lines of \<open>manifestAB\<close> with other indentation and trailing blanks.\<close>

definition manifestIndented :: string where
  "manifestIndented = ''  <a/>'' @ [LF] @ [CHR 0x09] @ ''<b/> '' @ [LF]"

definition exampleFs :: "string \<Rightarrow> string \<Rightarrow> fs" where
  "exampleFs m1 m2 = [''/tmp/t1/package.xml'' \<mapsto> File m1, ''/tmp/t2/package.xml'' \<mapsto> File m2]"

text \<open>The same file system after an earlier run has saved its copies in the same second.\<close>

definition savedBefore :: "string \<Rightarrow> string \<Rightarrow> fs" where
  "savedBefore m1 m2 =
     (exampleFs m1 m2)
       (''/out/package-1-2026-00-05T09:30:07Z.xml'' \<mapsto> File m1,
        ''/out/package-2-2026-00-05T09:30:07Z.xml'' \<mapsto> File m2)"

text \<open>A runtime that lets every copy through, and one that lets none through.\<close>

definition everyCopy :: fsCopy where
  "everyCopy src dest = True"

definition noCopy :: fsCopy where
  "noCopy src dest = False"


definition exampleWorld :: "fs \<Rightarrow> world" where
  "exampleWorld files =
     \<lparr>existsSync = (\<lambda>p. p = ''/out''),
      ensureOrgConnected1 = Inr (), ensureOrgConnected2 = Inr (),
      createTempDir1 = Inr ''/tmp/t1'', createTempDir2 = Inr ''/tmp/t2'',
      executeSFDXCommand1 = (\<lambda>cmd. Inr ()), executeSFDXCommand2 = (\<lambda>cmd. Inr ()),
      unzipFile = (\<lambda>file dest. Inr ()),
      extracted = files, fsCopyFile = everyCopy, now1 = exampleDate, now2 = exampleDate\<rparr>"

section \<open>Properties\<close>

subsection \<open>Lines\<close>

lemma lines_of_no_LF: "l \<in> set (lines_of s) \<Longrightarrow> LF \<notin> set l"
proof (induction s arbitrary: l rule: lines_of.induct)
  case 1
  then show ?case by simp
next
  case (2 c cs)
  then show ?case by (auto dest: set_takeWhileD split: if_splits)
qed

lemma lines_of_line: "LF \<notin> set l \<Longrightarrow> lines_of (l @ LF # rest) = l # lines_of rest"
proof (cases l)
  case Nil
  then show ?thesis by simp
next
  case (Cons c cs)
  assume "LF \<notin> set l"
  with Cons have a: "c \<noteq> LF" and b: "\<And>x. x \<in> set cs \<Longrightarrow> x \<noteq> LF" by auto
  from b have "takeWhile (\<lambda>x. x \<noteq> LF) (cs @ LF # rest) = cs"
    by simp
  moreover from b have "dropWhile (\<lambda>x. x \<noteq> LF) (cs @ LF # rest) = LF # rest"
    by simp
  ultimately show ?thesis using Cons a by simp
qed

lemma lines_of_unlines: "list_all (\<lambda>l. LF \<notin> set l) ls \<Longrightarrow> lines_of (unlines ls) = ls"
  unfolding unlines_def
  by (induction ls) (simp_all add: lines_of_line)

lemma lines_of_LF_free: "list_all (\<lambda>l. LF \<notin> set l) (lines_of s)"
  by (simp add: list_all_iff lines_of_no_LF)

subsection \<open>The marker pattern\<close>

text \<open>
  The pattern, read as the regular expression is written: somewhere in the string an opening
  tag, one or more characters of the class, and the closing tag.
\<close>

lemma stripPrefix_Some: "(stripPrefix p s = Some r) = (s = p @ r)"
  by (induction p s rule: stripPrefix.induct) auto

lemma stripPrefix_None: "(stripPrefix p s \<noteq> None) = (\<exists>r. s = p @ r)"
  using stripPrefix_Some [of p s] by (cases "stripPrefix p s") auto

lemma not_nsChar_lt: "\<not> nsChar CHR ''<''"
  by (simp add: nsChar_def)

lemma matchAt_iff:
  "matchAt s =
     (\<exists>body rest. s = ''<namespacePrefix>'' @ body @ ''</namespacePrefix>'' @ rest \<and>
        body \<noteq> [] \<and> list_all nsChar body)"
proof
  assume "matchAt s"
  then obtain r where r: "stripPrefix ''<namespacePrefix>'' s = Some r"
    and b: "takeWhile nsChar r \<noteq> []"
    and c: "stripPrefix ''</namespacePrefix>'' (dropWhile nsChar r) \<noteq> None"
    by (auto simp: matchAt_def split: option.splits)
  from c obtain rest where "dropWhile nsChar r = ''</namespacePrefix>'' @ rest"
    unfolding stripPrefix_None by blast
  then have "r = takeWhile nsChar r @ ''</namespacePrefix>'' @ rest"
    using takeWhile_dropWhile_id [of nsChar r] by simp
  moreover from r have "s = ''<namespacePrefix>'' @ r" by (simp only: stripPrefix_Some)
  moreover have "list_all nsChar (takeWhile nsChar r)"
    by (auto simp: list_all_iff dest: set_takeWhileD)
  ultimately show "\<exists>body rest. s = ''<namespacePrefix>'' @ body @ ''</namespacePrefix>'' @ rest \<and>
        body \<noteq> [] \<and> list_all nsChar body"
    using b by metis
next
  assume "\<exists>body rest. s = ''<namespacePrefix>'' @ body @ ''</namespacePrefix>'' @ rest \<and>
        body \<noteq> [] \<and> list_all nsChar body"
  then obtain body rest where s: "s = ''<namespacePrefix>'' @ (body @ ''</namespacePrefix>'' @ rest)"
    and b: "body \<noteq> []" "list_all nsChar body" by auto
  from s have 1: "stripPrefix ''<namespacePrefix>'' s = Some (body @ ''</namespacePrefix>'' @ rest)"
    by (simp only: stripPrefix_Some)
  from b(2) have "\<And>x. x \<in> set body \<Longrightarrow> nsChar x" by (simp add: list_all_iff)
  then have 2: "takeWhile nsChar (body @ ''</namespacePrefix>'' @ rest) = body"
    and 3: "dropWhile nsChar (body @ ''</namespacePrefix>'' @ rest) = ''</namespacePrefix>'' @ rest"
    using not_nsChar_lt by simp_all
  have "stripPrefix ''</namespacePrefix>'' (''</namespacePrefix>'' @ rest) \<noteq> None"
    unfolding stripPrefix_None by blast
  with 1 2 3 b(1) show "matchAt s" by (simp add: matchAt_def del: stripPrefix.simps)
qed

lemma re_iff: "re s = (\<exists>pre rest. s = pre @ rest \<and> matchAt rest)"
proof (induction s)
  case Nil
  then show ?case by (simp add: matchAt_def)
next
  case (Cons c cs)
  show ?case
  proof
    assume "re (c # cs)"
    then consider "matchAt (c # cs)" | "re cs" by auto
    then show "\<exists>pre rest. c # cs = pre @ rest \<and> matchAt rest"
    proof cases
      case 1
      then show ?thesis by (intro exI [of _ "[]"] exI [of _ "c # cs"]) simp
    next
      case 2
      with Cons obtain pre rest where "cs = pre @ rest" "matchAt rest" by blast
      then show ?thesis by (intro exI [of _ "c # pre"] exI [of _ rest]) simp
    qed
  next
    assume "\<exists>pre rest. c # cs = pre @ rest \<and> matchAt rest"
    then obtain pre rest where p: "c # cs = pre @ rest" "matchAt rest" by blast
    show "re (c # cs)"
    proof (cases pre)
      case Nil
      with p have "matchAt (c # cs)" by simp
      then show ?thesis by simp
    next
      case (Cons a pre')
      with p have "cs = pre' @ rest" by simp
      with p(2) Cons.IH have "re cs" by blast
      then show ?thesis by simp
    qed
  qed
qed

lemma re_pattern:
  "re s =
     (\<exists>pre body post. s = pre @ ''<namespacePrefix>'' @ body @ ''</namespacePrefix>'' @ post \<and>
        body \<noteq> [] \<and> list_all nsChar body)"
  unfolding re_iff matchAt_iff by blast

subsection \<open>Finding and removing a line\<close>

lemma lineNumberFrom_filter: "map line (lineNumberFrom k rx ls) = filter rx ls"
  by (induction ls arbitrary: k) auto

lemma lineNumberFrom_empty: "filter rx ls = [] \<Longrightarrow> lineNumberFrom k rx ls = []"
  by (induction ls arbitrary: k) (auto split: if_splits)

lemma lineNumberFrom_one:
  "length (lineNumberFrom k rx ls) = 1 \<Longrightarrow>
   \<exists>i<length ls. rx (ls ! i) \<and> number (lineNumberFrom k rx ls ! 0) = k + i + 1 \<and>
      filter rx (take i ls @ drop (Suc i) ls) = []"
proof (induction ls arbitrary: k)
  case Nil
  then show ?case by simp
next
  case (Cons l ls)
  show ?case
  proof (cases "rx l")
    case True
    with Cons.prems have "lineNumberFrom (k + 1) rx ls = []" by simp
    then have "filter rx ls = []"
      using lineNumberFrom_filter [of "k + 1" rx ls] by simp
    with True show ?thesis by (intro exI [of _ 0]) simp
  next
    case False
    with Cons.prems have "length (lineNumberFrom (k + 1) rx ls) = 1" by simp
    from Cons.IH [OF this] obtain i where i: "i < length ls" "rx (ls ! i)"
      "number (lineNumberFrom (k + 1) rx ls ! 0) = k + 1 + i + 1"
      "filter rx (take i ls @ drop (Suc i) ls) = []" by blast
    with False show ?thesis by (intro exI [of _ "Suc i"]) simp
  qed
qed

lemma lineNumber_count: "length (lineNumber c rx) = length (filter rx (lines_of c))"
  unfolding lineNumber_def
  using lineNumberFrom_filter [of 0 rx "lines_of c"] by (metis length_map)

lemma replaceLines_other: "n \<le> k \<Longrightarrow> replaceLines k n t a ls = unlines ls"
  by (induction ls arbitrary: k) (simp_all add: unlines_def)

lemma replaceLines_remove:
  "i < length ls \<Longrightarrow> replaceLines k (k + i + 1) [] False ls = unlines (take i ls @ drop (Suc i) ls)"
proof (induction ls arbitrary: k i)
  case Nil
  then show ?case by simp
next
  case (Cons l ls)
  show ?case
  proof (cases i)
    case 0
    then show ?thesis by (simp add: replaceLines_other)
  next
    case (Suc j)
    with Cons.prems have "j < length ls" by simp
    from Cons.IH [OF this, of "k + 1"] Suc show ?thesis by (simp add: unlines_def)
  qed
qed

lemma stripMarker_removes:
  assumes isfile: "fs p = Some (File c)"
    and one: "length (lineNumber c re) = 1"
  shows "\<exists>i<length (lines_of c). re (lines_of c ! i) \<and>
           filter re (take i (lines_of c) @ drop (Suc i) (lines_of c)) = [] \<and>
           stripMarker fs p c = fs(p \<mapsto> File (unlines (take i (lines_of c) @ drop (Suc i) (lines_of c))))"
proof -
  from one have "length (lineNumberFrom 0 re (lines_of c)) = 1"
    by (simp add: lineNumber_def)
  from lineNumberFrom_one [OF this] obtain i where i: "i < length (lines_of c)"
    "re (lines_of c ! i)" "number (lineNumberFrom 0 re (lines_of c) ! 0) = 0 + i + 1"
    "filter re (take i (lines_of c) @ drop (Suc i) (lines_of c)) = []" by blast
  have "stripMarker fs p c = fs(p \<mapsto> File (replaceLines 0 (0 + i + 1) [] False (lines_of c)))"
    using isfile one i(3)
    by (simp add: stripMarker_def lineRemove_def lineReplace_def lineNumber_def)
  with i replaceLines_remove [OF i(1), of 0] show ?thesis by auto
qed

lemma stripMarker_frame: "q \<noteq> p \<Longrightarrow> stripMarker fs p c q = fs q"
  by (simp add: stripMarker_def lineRemove_def lineReplace_def Let_def split: option.splits node.splits)

lemma stripMarker_file:
  "fs p = Some (File c) \<Longrightarrow> \<exists>c'. stripMarker fs p c p = Some (File c')"
  by (simp add: stripMarker_def lineRemove_def lineReplace_def Let_def)

lemma stripMarker_local:
  "fs' p = fs p \<Longrightarrow> stripMarker fs' p c p = stripMarker fs p c p"
  by (simp add: stripMarker_def lineRemove_def lineReplace_def Let_def split: option.splits node.splits)

subsection \<open>The differ and the filter\<close>

lemma editScript_same: "map trim xs = map trim ys \<Longrightarrow> fst ` set (editScript xs ys) \<subseteq> {Common}"
proof (induction xs ys rule: editScript.induct)
  case (1 ys)
  then show ?case by simp
next
  case (2 x xs)
  then show ?case by simp
next
  case (3 x xs y ys)
  then show ?case by simp
qed

lemma editScript_all_common:
  "fst ` set (editScript xs ys) \<subseteq> {Common} \<Longrightarrow> map trim xs = map trim ys"
proof (induction xs ys rule: editScript.induct)
  case (1 ys)
  then show ?case by (cases ys) auto
next
  case (2 x xs)
  then show ?case by auto
next
  case (3 x xs y ys)
  show ?case
  proof (cases "trim x = trim y")
    case True
    with 3 show ?thesis by auto
  next
    case False
    with "3.prems" show ?thesis by (auto simp: Let_def split: if_splits)
  qed
qed

lemma components_tags: "fst ` set (components es) = fst ` set es"
proof (induction es rule: components.induct)
  case 1
  then show ?case by simp
next
  case (2 t l es)
  show ?case
  proof (cases "components es")
    case Nil
    with 2 show ?thesis by simp
  next
    case (Cons c cs)
    obtain t' ls where c: "c = (t', ls)" by (cases c)
    from 2 Cons c have "fst ` set es = insert t' (fst ` set cs)" by simp
    with Cons c show ?thesis by (cases "t' = t") auto
  qed
qed

lemma changeObject_added: "hasOwnProperty (changeObject c) ''added'' = (fst c \<noteq> Common)"
proof (cases c)
  case (Pair t ls)
  then show ?thesis by (cases t) (simp_all add: hasOwnProperty_def)
qed

lemma changeObject_changed: "\<not> hasOwnProperty (changeObject c) ''changed''"
proof (cases c)
  case (Pair t ls)
  then show ?thesis by (cases t) (simp_all add: hasOwnProperty_def)
qed

lemma filteredChanges_empty:
  "(filteredChanges (map changeObject cs) = []) = (fst ` set cs \<subseteq> {Common})"
proof -
  have "(filteredChanges (map changeObject cs) = []) = (\<forall>c\<in>set cs. fst c = Common)"
    unfolding filteredChanges_def filter_empty_conv
    by (simp add: changeObject_added changeObject_changed)
  then show ?thesis by auto
qed

lemma filteredChanges_diff:
  "(filteredChanges (diffTrimmedLines a b) = []) = (map trim (lines_of a) = map trim (lines_of b))"
proof -
  have "(filteredChanges (diffTrimmedLines a b) = []) =
        (fst ` set (editScript (lines_of a) (lines_of b)) \<subseteq> {Common})"
    by (simp only: diffTrimmedLines_def filteredChanges_empty components_tags)
  also have "\<dots> = (map trim (lines_of a) = map trim (lines_of b))"
  proof (rule iffI)
    assume "fst ` set (editScript (lines_of a) (lines_of b)) \<subseteq> {Common}"
    then show "map trim (lines_of a) = map trim (lines_of b)" by (rule editScript_all_common)
  next
    assume "map trim (lines_of a) = map trim (lines_of b)"
    then show "fst ` set (editScript (lines_of a) (lines_of b)) \<subseteq> {Common}"
      by (rule editScript_same)
  qed
  finally show ?thesis .
qed

lemma compareContents_eq:
  "compareContents [a, b] = (if map trim (lines_of a) = map trim (lines_of b) then 0 else 1)"
  using filteredChanges_diff [of a b] by (simp add: compareContents_def)

subsection \<open>Timestamps\<close>

lemma digitChar_isDigit: "n < 10 \<Longrightarrow> isDigit (digitChar n)"
proof -
  assume "n < 10"
  then have "n \<in> {0, 1, 2, 3, 4, 5, 6, 7, 8, 9}" by auto
  then show ?thesis by (auto simp: isDigit_def digitChar_def)
qed

lemma showNat_digit: "n < 10 \<Longrightarrow> showNat n = [digitChar n]"
  by simp

lemma showNat_step: "10 \<le> n \<Longrightarrow> showNat n = showNat (n div 10) @ [digitChar (n mod 10)]"
  by (subst showNat.simps) simp

lemma showNat_two: "10 \<le> n \<Longrightarrow> n < 100 \<Longrightarrow> showNat n = twoDigits n"
  by (subst showNat.simps) (simp add: twoDigits_def)

lemma showNat_four: "1000 \<le> n \<Longrightarrow> n \<le> 9999 \<Longrightarrow> showNat n = fourDigits n"
proof -
  assume a: "1000 \<le> n" "n \<le> 9999"
  have 1: "showNat n = showNat (n div 10) @ [digitChar (n mod 10)]"
    using a by (intro showNat_step) simp
  have 2: "showNat (n div 10) = showNat (n div 10 div 10) @ [digitChar (n div 10 mod 10)]"
    using a by (intro showNat_step) simp
  have 3: "showNat (n div 10 div 10) = showNat (n div 10 div 10 div 10) @ [digitChar (n div 10 div 10 mod 10)]"
    using a by (intro showNat_step) simp
  have 4: "showNat (n div 10 div 10 div 10) = [digitChar (n div 10 div 10 div 10)]"
    using a by (intro showNat_digit) simp
  have "n div 10 div 10 = n div 100" "n div 10 div 10 div 10 = n div 1000"
    by (simp_all add: div_mult2_eq [symmetric])
  with 1 2 3 4 show ?thesis by (simp add: fourDigits_def del: showNat.simps)
qed

lemma showNat_wait: "showNat DEFAULT_WAIT = ''100''"
  by (simp add: DEFAULT_WAIT_def digitChar_def)

lemma pad_twoDigits: "n < 100 \<Longrightarrow> pad n = twoDigits n"
proof (cases "n < 10")
  case True
  then show ?thesis by (simp add: pad_def twoDigits_def digitChar_def)
next
  case False
  assume "n < 100"
  with False show ?thesis by (simp add: pad_def showNat_two del: showNat.simps)
qed

lemma twoDigits_isDigit: "n < 100 \<Longrightarrow> list_all isDigit (twoDigits n)"
  by (simp add: twoDigits_def digitChar_isDigit)

lemma fourDigits_isDigit: "n \<le> 9999 \<Longrightarrow> list_all isDigit (fourDigits n)"
  by (simp add: fourDigits_def digitChar_isDigit)

lemma getTimestamp_valid:
  assumes "validDate d"
  shows "getTimestamp d =
     fourDigits (getUTCFullYear d) @ ''-'' @ twoDigits (getUTCMonth d) @ ''-'' @
     twoDigits (getUTCDate d) @ ''T'' @ twoDigits (getUTCHours d) @ '':'' @
     twoDigits (getUTCMinutes d) @ '':'' @ twoDigits (getUTCSeconds d) @ ''Z''"
  using assms
  by (simp add: getTimestamp_def validDate_def showNat_four pad_twoDigits del: showNat.simps)

lemma getTimestamp_spec: "validDate d \<Longrightarrow> getTimestamp d = specTimestamp d"
  by (simp add: getTimestamp_valid specTimestamp_def calendarMonth_def)

lemma isTimestamp_shape:
  "list_all isDigit (fourDigits y) \<Longrightarrow> list_all isDigit (twoDigits m) \<Longrightarrow>
   list_all isDigit (twoDigits dd) \<Longrightarrow> list_all isDigit (twoDigits h) \<Longrightarrow>
   list_all isDigit (twoDigits mi) \<Longrightarrow> list_all isDigit (twoDigits s) \<Longrightarrow>
   isTimestamp (fourDigits y @ ''-'' @ twoDigits m @ ''-'' @ twoDigits dd @ ''T'' @ twoDigits h @
      '':'' @ twoDigits mi @ '':'' @ twoDigits s @ ''Z'')"
  by (simp add: fourDigits_def twoDigits_def)

lemma isTimestamp_getTimestamp: "validDate d \<Longrightarrow> isTimestamp (getTimestamp d)"
proof -
  assume v: "validDate d"
  then have "getTimestamp d =
     fourDigits (getUTCFullYear d) @ ''-'' @ twoDigits (getUTCMonth d) @ ''-'' @
     twoDigits (getUTCDate d) @ ''T'' @ twoDigits (getUTCHours d) @ '':'' @
     twoDigits (getUTCMinutes d) @ '':'' @ twoDigits (getUTCSeconds d) @ ''Z''"
    by (rule getTimestamp_valid)
  moreover from v have "list_all isDigit (fourDigits (getUTCFullYear d))"
    "list_all isDigit (twoDigits (getUTCMonth d))" "list_all isDigit (twoDigits (getUTCDate d))"
    "list_all isDigit (twoDigits (getUTCHours d))" "list_all isDigit (twoDigits (getUTCMinutes d))"
    "list_all isDigit (twoDigits (getUTCSeconds d))"
    by (simp_all add: validDate_def fourDigits_isDigit twoDigits_isDigit)
  ultimately show ?thesis by (simp only: isTimestamp_shape)
qed

subsection \<open>Copying and saving\<close>

lemma copyFile_ok:
  "fs src = Some (File c) \<Longrightarrow> fs dest = None \<Longrightarrow> cp src dest \<Longrightarrow>
   copyFile cp fs src dest False = (Inr (), fs(dest \<mapsto> File c))"
  by (simp add: copyFile_def)

lemma copyFile_refused:
  "fs src = Some (File c) \<Longrightarrow> fs dest = None \<Longrightarrow> \<not> cp src dest \<Longrightarrow>
   \<exists>err. copyFile cp fs src dest False = (Inl err, fs)"
  by (simp add: copyFile_def)

lemma copyFile_exists:
  "fs dest \<noteq> None \<Longrightarrow> \<exists>err. copyFile cp fs src dest False = (Inl err, fs)"
  by (simp add: copyFile_def)

lemma deleteFile_frame: "p \<noteq> path \<Longrightarrow> snd (deleteFile fs path) p = fs p"
  by (simp add: deleteFile_def split: option.splits node.splits)

lemma copyFile_frame: "p \<noteq> dest \<Longrightarrow> snd (copyFile cp fs src dest force) p = fs p"
proof -
  assume p: "p \<noteq> dest"
  obtain r fs' where d: "deleteFile fs dest = (r, fs')" by (cases "deleteFile fs dest")
  with deleteFile_frame [OF p, of fs] have "fs' p = fs p" by simp
  with p d show ?thesis
    by (auto simp: copyFile_def split: sum.splits option.splits node.splits if_splits)
qed

lemma saveTriggered_iff:
  "saveTriggered opts rc =
     (save_packagexml opts = Some ''always'' \<or> (save_packagexml opts = Some ''diff'' \<and> rc = 1))"
  by (auto simp: saveTriggered_def)

lemma savePackageXmls_not_triggered:
  "\<not> saveTriggered opts rc \<Longrightarrow> savePackageXmls cp pj opts fs t1 t2 d1 d2 rc = (Inr (JNum rc), fs)"
  by (simp add: savePackageXmls_def)

lemma savePackageXmls_frame:
  assumes "save_dir opts = Some dir"
    and "p \<noteq> saveDest pj dir ''1'' d1" and "p \<noteq> saveDest pj dir ''2'' d2"
  shows "snd (savePackageXmls cp pj opts fs t1 t2 d1 d2 rc) p = fs p"
proof (cases "saveTriggered opts rc")
  case False
  then show ?thesis by (simp add: savePackageXmls_not_triggered)
next
  case True
  obtain r1 fs1 where c1: "copyFile cp fs (getPackageXMLPath pj opts t1) (saveDest pj dir ''1'' d1) False = (r1, fs1)"
    by (cases "copyFile cp fs (getPackageXMLPath pj opts t1) (saveDest pj dir ''1'' d1) False")
  obtain r2 fs2 where c2: "copyFile cp fs1 (getPackageXMLPath pj opts t2) (saveDest pj dir ''2'' d2) False = (r2, fs2)"
    by (cases "copyFile cp fs1 (getPackageXMLPath pj opts t2) (saveDest pj dir ''2'' d2) False")
  from c1 copyFile_frame [OF assms(2), of cp fs "getPackageXMLPath pj opts t1" False]
  have "fs1 p = fs p" by simp
  moreover from c2 copyFile_frame [OF assms(3), of cp fs1 "getPackageXMLPath pj opts t2" False]
  have "fs2 p = fs1 p" by simp
  moreover have "snd (savePackageXmls cp pj opts fs t1 t2 d1 d2 rc) = fs2"
    using True assms(1) c1 c2 by (simp add: savePackageXmls_def split: sum.splits)
  ultimately show ?thesis by simp
qed

lemma savePackageXmls_success:
  assumes "saveTriggered opts rc" and "save_dir opts = Some dir"
    and "fs (getPackageXMLPath pj opts t1) = Some (File c1)"
    and "fs (getPackageXMLPath pj opts t2) = Some (File c2)"
    and "fs (saveDest pj dir ''1'' d1) = None" and "fs (saveDest pj dir ''2'' d2) = None"
    and "saveDest pj dir ''1'' d1 \<noteq> saveDest pj dir ''2'' d2"
    and "cp (getPackageXMLPath pj opts t1) (saveDest pj dir ''1'' d1)"
    and "cp (getPackageXMLPath pj opts t2) (saveDest pj dir ''2'' d2)"
  shows "savePackageXmls cp pj opts fs t1 t2 d1 d2 rc =
           (Inr (JArr [JNum rc, JUndefined, JUndefined]),
            fs(saveDest pj dir ''1'' d1 \<mapsto> File c1, saveDest pj dir ''2'' d2 \<mapsto> File c2))"
proof -
  let ?s1 = "getPackageXMLPath pj opts t1" and ?s2 = "getPackageXMLPath pj opts t2"
  let ?d1 = "saveDest pj dir ''1'' d1" and ?d2 = "saveDest pj dir ''2'' d2"
  have 1: "copyFile cp fs ?s1 ?d1 False = (Inr (), fs(?d1 \<mapsto> File c1))"
    using assms(3,5,8) by (rule copyFile_ok)
  have "?s2 \<noteq> ?d1" using assms(4,5) by auto
  then have "(fs(?d1 \<mapsto> File c1)) ?s2 = Some (File c2)" using assms(4) by simp
  moreover have "(fs(?d1 \<mapsto> File c1)) ?d2 = None" using assms(6,7) by simp
  ultimately have 2: "copyFile cp (fs(?d1 \<mapsto> File c1)) ?s2 ?d2 False =
      (Inr (), fs(?d1 \<mapsto> File c1, ?d2 \<mapsto> File c2))"
    using assms(9) by (rule copyFile_ok)
  show ?thesis using assms(1,2) 1 2 by (simp add: savePackageXmls_def)
qed

text \<open>When the runtime refuses both copies, nothing is written and the save is rejected.\<close>

lemma savePackageXmls_refused:
  assumes "saveTriggered opts rc" and "save_dir opts = Some dir"
    and "fs (getPackageXMLPath pj opts t1) = Some (File c1)"
    and "fs (getPackageXMLPath pj opts t2) = Some (File c2)"
    and "fs (saveDest pj dir ''1'' d1) = None" and "fs (saveDest pj dir ''2'' d2) = None"
    and "\<not> cp (getPackageXMLPath pj opts t1) (saveDest pj dir ''1'' d1)"
    and "\<not> cp (getPackageXMLPath pj opts t2) (saveDest pj dir ''2'' d2)"
  shows "\<exists>err. savePackageXmls cp pj opts fs t1 t2 d1 d2 rc = (Inl err, fs)"
proof -
  let ?s1 = "getPackageXMLPath pj opts t1" and ?s2 = "getPackageXMLPath pj opts t2"
  let ?d1 = "saveDest pj dir ''1'' d1" and ?d2 = "saveDest pj dir ''2'' d2"
  from copyFile_refused [of fs ?s1 c1 ?d1 cp, OF assms(3,5,7)]
  obtain e1 where 1: "copyFile cp fs ?s1 ?d1 False = (Inl e1, fs)" by blast
  from copyFile_refused [of fs ?s2 c2 ?d2 cp, OF assms(4,6,8)]
  obtain e2 where 2: "copyFile cp fs ?s2 ?d2 False = (Inl e2, fs)" by blast
  from assms(1,2) 1 2 show ?thesis by (simp add: savePackageXmls_def)
qed

lemma savePackageXmls_value:
  assumes "savePackageXmls cp pj opts fs t1 t2 d1 d2 rc = (Inr v, fs')"
  shows "v = (if saveTriggered opts rc then JArr [JNum rc, JUndefined, JUndefined] else JNum rc)"
proof (cases "saveTriggered opts rc")
  case False
  with assms show ?thesis by (simp add: savePackageXmls_not_triggered)
next
  case True
  with assms obtain dir where dir: "save_dir opts = Some dir"
    by (cases "save_dir opts") (auto simp: savePackageXmls_def)
  obtain r1 fs1 where c1: "copyFile cp fs (getPackageXMLPath pj opts t1) (saveDest pj dir ''1'' d1) False = (r1, fs1)"
    by (cases "copyFile cp fs (getPackageXMLPath pj opts t1) (saveDest pj dir ''1'' d1) False")
  obtain r2 fs2 where c2: "copyFile cp fs1 (getPackageXMLPath pj opts t2) (saveDest pj dir ''2'' d2) False = (r2, fs2)"
    by (cases "copyFile cp fs1 (getPackageXMLPath pj opts t2) (saveDest pj dir ''2'' d2) False")
  from assms True dir c1 c2 show ?thesis
    by (cases r1; cases r2) (auto simp: savePackageXmls_def)
qed

lemma written_two:
  assumes "fs a = None" and "fs b = None" and "a \<noteq> b"
  shows "written fs (fs(a \<mapsto> x, b \<mapsto> y)) = {a, b}"
  using assms by (auto simp: written_def)

lemma written_same: "written fs fs = {}"
  by (simp add: written_def)

lemma written_subset:
  assumes "\<And>p. p \<noteq> a \<Longrightarrow> p \<noteq> b \<Longrightarrow> fs' p = fs p"
  shows "written fs fs' \<subseteq> {a, b}"
  using assms by (auto simp: written_def)

lemma card_two: "a \<noteq> b \<Longrightarrow> card {a, b} = 2"
  by simp

subsection \<open>The promise chain\<close>

lemma promiseAll_pair:
  "(promiseAll [p, q] = Inr vs) = (\<exists>a b. p = Inr a \<and> q = Inr b \<and> vs = [a, b])"
  by (cases p; cases q) auto

lemma promiseAll_pair_failure:
  "(\<exists>e. promiseAll [p, q] = Inl e) = ((\<exists>e. p = Inl e) \<or> (\<exists>e. q = Inl e))"
  by (cases p; cases q) auto

lemma case_promiseAll_pair:
  "((case promiseAll [p, q] of Inl err \<Rightarrow> Inl err | Inr vs \<Rightarrow> f vs) = Inr r) =
     (\<exists>a b. p = Inr a \<and> q = Inr b \<and> f [a, b] = Inr r)"
  by (cases p; cases q) auto

lemma retrieveManifests_success:
  "(retrieveManifests pj opts w = Inr (t1, t2)) =
     (ensureOrgConnected1 w = Inr () \<and> ensureOrgConnected2 w = Inr () \<and>
      createTempDir1 w = Inr t1 \<and> createTempDir2 w = Inr t2 \<and>
      executeSFDXCommand1 w (''force:mdapi:retrieve '' @ retrieveCmd opts @ '' --retrievetargetdir '' @ t1) = Inr () \<and>
      executeSFDXCommand2 w (''force:mdapi:retrieve '' @ retrieveCmd opts @ '' --retrievetargetdir '' @ t2) = Inr () \<and>
      unzipFile w (pj [t1, ''unpackaged.zip'']) t1 = Inr () \<and>
      unzipFile w (pj [t2, ''unpackaged.zip'']) t2 = Inr ())"
  unfolding retrieveManifests_def Let_def case_promiseAll_pair
  by auto


lemma retrieveManifests_failure_cases:
  assumes "retrieveManifests pj opts w = Inl e"
  shows "ensureOrgConnected1 w = Inl e \<or> ensureOrgConnected2 w = Inl e \<or>
         createTempDir1 w = Inl e \<or> createTempDir2 w = Inl e \<or>
         (\<exists>t1 t2. createTempDir1 w = Inr t1 \<and> createTempDir2 w = Inr t2 \<and>
            (executeSFDXCommand1 w (''force:mdapi:retrieve '' @ retrieveCmd opts @ '' --retrievetargetdir '' @ t1) = Inl e \<or>
             executeSFDXCommand2 w (''force:mdapi:retrieve '' @ retrieveCmd opts @ '' --retrievetargetdir '' @ t2) = Inl e \<or>
             unzipFile w (pj [t1, ''unpackaged.zip'']) t1 = Inl e \<or>
             unzipFile w (pj [t2, ''unpackaged.zip'']) t2 = Inl e))"
proof (cases "ensureOrgConnected1 w")
  case Inl
  with assms show ?thesis by (simp add: retrieveManifests_def)
next
  case c1: (Inr u1)
  show ?thesis
  proof (cases "ensureOrgConnected2 w")
    case Inl
    with assms c1 show ?thesis by (simp add: retrieveManifests_def)
  next
    case c2: (Inr u2)
    show ?thesis
    proof (cases "createTempDir1 w")
      case Inl
      with assms c1 c2 show ?thesis by (simp add: retrieveManifests_def)
    next
      case d1: (Inr t1)
      show ?thesis
      proof (cases "createTempDir2 w")
        case Inl
        with assms c1 c2 d1 show ?thesis by (simp add: retrieveManifests_def)
      next
        case d2: (Inr t2)
        define x1 where "x1 = executeSFDXCommand1 w (''force:mdapi:retrieve '' @ retrieveCmd opts @ '' --retrievetargetdir '' @ t1)"
        define x2 where "x2 = executeSFDXCommand2 w (''force:mdapi:retrieve '' @ retrieveCmd opts @ '' --retrievetargetdir '' @ t2)"
        define z1 where "z1 = unzipFile w (pj [t1, ''unpackaged.zip'']) t1"
        define z2 where "z2 = unzipFile w (pj [t2, ''unpackaged.zip'']) t2"
        have "retrieveManifests pj opts w =
            (case promiseAll [x1, x2] of Inl err \<Rightarrow> Inl err
             | Inr _ \<Rightarrow> (case promiseAll [z1, z2] of Inl err \<Rightarrow> Inl err | Inr _ \<Rightarrow> Inr (t1, t2)))"
          unfolding retrieveManifests_def x1_def x2_def z1_def z2_def by (simp add: c1 c2 d1 d2 Let_def)
        with assms have "x1 = Inl e \<or> x2 = Inl e \<or> z1 = Inl e \<or> z2 = Inl e"
          by (cases x1; cases x2; cases z1; cases z2) simp_all
        with d1 d2 show ?thesis unfolding x1_def x2_def z1_def z2_def by blast
      qed
    qed
  qed
qed

lemma inspect_pair:
  assumes "inspect pj opts fs t1 t2 = (Inr fileContents, fs')"
  shows "\<exists>a b. fileContents = [a, b]"
proof -
  have "\<And>fs. readPackageXmls pj opts fs t1 t2 = Inr fileContents \<Longrightarrow> \<exists>a b. fileContents = [a, b]"
    by (auto simp: readPackageXmls_def promiseAll_pair)
  with assms show ?thesis
    by (auto simp: inspect_def Let_def split: if_splits sum.splits)
qed

lemma inspect_strips:
  assumes "\<not> truthy (packagexml opts)"
    and "getPackageXMLPath pj opts t1 \<noteq> getPackageXMLPath pj opts t2"
    and "fs (getPackageXMLPath pj opts t1) = Some (File c1)"
    and "fs (getPackageXMLPath pj opts t2) = Some (File c2)"
  shows "\<exists>c1' c2'.
           inspect pj opts fs t1 t2 =
             (Inr [c1', c2'],
              stripMarker (stripMarker fs (getPackageXMLPath pj opts t1) c1) (getPackageXMLPath pj opts t2) c2) \<and>
           stripMarker fs (getPackageXMLPath pj opts t1) c1 (getPackageXMLPath pj opts t1) = Some (File c1') \<and>
           stripMarker fs (getPackageXMLPath pj opts t2) c2 (getPackageXMLPath pj opts t2) = Some (File c2')"
proof -
  let ?p1 = "getPackageXMLPath pj opts t1" and ?p2 = "getPackageXMLPath pj opts t2"
  let ?fs1 = "stripMarker fs ?p1 c1"
  let ?fs2 = "stripMarker ?fs1 ?p2 c2"
  from assms(3) obtain c1' where c1': "?fs1 ?p1 = Some (File c1')"
    using stripMarker_file by blast
  from assms(4) obtain c2' where c2': "stripMarker fs ?p2 c2 ?p2 = Some (File c2')"
    using stripMarker_file by blast
  have "?fs1 ?p2 = fs ?p2" using assms(2) by (simp add: stripMarker_frame)
  then have "?fs2 ?p2 = stripMarker fs ?p2 c2 ?p2" by (rule stripMarker_local)
  with c2' have "?fs2 ?p2 = Some (File c2')" by simp
  moreover have "?fs2 ?p1 = Some (File c1')" using assms(2) c1' by (simp add: stripMarker_frame)
  ultimately have after: "readPackageXmls pj opts ?fs2 t1 t2 = Inr [c1', c2']"
    by (simp add: readPackageXmls_def readFile_def)
  have before: "readPackageXmls pj opts fs t1 t2 = Inr [c1, c2]"
    using assms(3,4) by (simp add: readPackageXmls_def readFile_def)
  have "inspect pj opts fs t1 t2 = (readPackageXmls pj opts ?fs2 t1 t2, ?fs2)"
    unfolding inspect_def Let_def before using assms(1) by simp
  with after have "inspect pj opts fs t1 t2 = (Inr [c1', c2'], ?fs2)" by simp
  with c1' c2' show ?thesis by blast
qed



lemma pipeline_stages:
  "retrieveManifests pj opts w = Inr (t1, t2) \<Longrightarrow>
   inspect pj opts (extracted w) t1 t2 = (Inr fileContents, fs') \<Longrightarrow>
   pipeline pj opts w =
     fst (savePackageXmls (fsCopyFile w) pj opts fs' t1 t2 (now1 w) (now2 w) (compareContents fileContents))"
  by (simp add: pipeline_def)

text \<open>Every rejection that reaches the final \<^verbatim>\<open>catch\<close> comes from one of the steps of the chain.\<close>

lemma pipeline_failure_cases:
  assumes "pipeline pj opts w = Inl e"
  shows "ensureOrgConnected1 w = Inl e \<or> ensureOrgConnected2 w = Inl e \<or>
         createTempDir1 w = Inl e \<or> createTempDir2 w = Inl e \<or>
         (\<exists>t1 t2. createTempDir1 w = Inr t1 \<and> createTempDir2 w = Inr t2 \<and>
            (executeSFDXCommand1 w (''force:mdapi:retrieve '' @ retrieveCmd opts @ '' --retrievetargetdir '' @ t1) = Inl e \<or>
             executeSFDXCommand2 w (''force:mdapi:retrieve '' @ retrieveCmd opts @ '' --retrievetargetdir '' @ t2) = Inl e \<or>
             unzipFile w (pj [t1, ''unpackaged.zip'']) t1 = Inl e \<or>
             unzipFile w (pj [t2, ''unpackaged.zip'']) t2 = Inl e)) \<or>
         (\<exists>t1 t2. retrieveManifests pj opts w = Inr (t1, t2) \<and>
            fst (inspect pj opts (extracted w) t1 t2) = Inl e) \<or>
         (\<exists>t1 t2 fileContents fs'. retrieveManifests pj opts w = Inr (t1, t2) \<and>
            inspect pj opts (extracted w) t1 t2 = (Inr fileContents, fs') \<and>
            fst (savePackageXmls (fsCopyFile w) pj opts fs' t1 t2 (now1 w) (now2 w)
                   (compareContents fileContents)) = Inl e)"
proof (cases "retrieveManifests pj opts w")
  case (Inl e')
  with assms have "retrieveManifests pj opts w = Inl e" by (simp add: pipeline_def)
  then show ?thesis by (auto dest: retrieveManifests_failure_cases)
next
  case (Inr ts)
  obtain t1 t2 where ts: "ts = (t1, t2)" by (cases ts)
  with Inr have r: "retrieveManifests pj opts w = Inr (t1, t2)" by simp
  obtain res fs' where i: "inspect pj opts (extracted w) t1 t2 = (res, fs')"
    by (cases "inspect pj opts (extracted w) t1 t2")
  show ?thesis
  proof (cases res)
    case (Inl e')
    with assms r i have "fst (inspect pj opts (extracted w) t1 t2) = Inl e"
      by (simp add: pipeline_def)
    with r show ?thesis by blast
  next
    case (Inr fileContents)
    with i have i': "inspect pj opts (extracted w) t1 t2 = (Inr fileContents, fs')" by simp
    with assms r have "fst (savePackageXmls (fsCopyFile w) pj opts fs' t1 t2 (now1 w) (now2 w)
        (compareContents fileContents)) = Inl e"
      by (simp add: pipeline_stages)
    with r i' show ?thesis by blast
  qed
qed


lemma run_failure:
  "argsValid opts (existsSync w) \<Longrightarrow> pipeline pj opts w = Inl err \<Longrightarrow> run pj opts w = Exit (JNum 1)"
  by (simp add: run_def)

lemma run_value:
  "argsValid opts (existsSync w) \<Longrightarrow> pipeline pj opts w = Inr v \<Longrightarrow> run pj opts w = Exit v"
  by (simp add: run_def)





subsection \<open>The example inputs, evaluated\<close>

lemma slashJoin_two: "a \<noteq> [] \<Longrightarrow> b \<noteq> [] \<Longrightarrow> slashJoin [a, b] = a @ ''/'' @ b"
  by (simp add: slashJoin_def)

lemma slashJoin_three:
  "a \<noteq> [] \<Longrightarrow> b \<noteq> [] \<Longrightarrow> c \<noteq> [] \<Longrightarrow> slashJoin [a, b, c] = a @ ''/'' @ b @ ''/'' @ c"
  by (simp add: slashJoin_def)

lemma ex_path1: "getPackageXMLPath slashJoin exampleOptions t = slashJoin [t, ''package.xml'']"
  by (simp add: getPackageXMLPath_def exampleOptions_def)

lemma ex_path: "packagexml opts = None \<Longrightarrow>
  getPackageXMLPath slashJoin opts ''/tmp/t1'' = ''/tmp/t1/package.xml'' \<and>
  getPackageXMLPath slashJoin opts ''/tmp/t2'' = ''/tmp/t2/package.xml''"
  by (simp add: getPackageXMLPath_def slashJoin_two)

lemma ex_ts: "getTimestamp exampleDate = ''2026-00-05T09:30:07Z''"
  by (simp add: getTimestamp_def exampleDate_def pad_def digitChar_def)

lemma ex_valid: "validDate exampleDate"
  by (simp add: validDate_def exampleDate_def)

lemma ex_dest1: "saveDest slashJoin ''/out'' ''1'' exampleDate = ''/out/package-1-2026-00-05T09:30:07Z.xml''"
  by (simp add: saveDest_def ex_ts slashJoin_two)

lemma ex_dest2: "saveDest slashJoin ''/out'' ''2'' exampleDate = ''/out/package-2-2026-00-05T09:30:07Z.xml''"
  by (simp add: saveDest_def ex_ts slashJoin_two)

lemma ex_args: "argsValid exampleOptions (existsSync (exampleWorld files))"
  by (simp add: argsValid_def exampleOptions_def exampleWorld_def)

lemma ex_args_valid:
  "org1 opts = Some ''lekkim1'' \<Longrightarrow> org2 opts = Some ''lekkim2'' \<Longrightarrow> \<not> parseError opts \<Longrightarrow>
   \<not> help_flag opts \<Longrightarrow> save_dir opts = Some ''/out'' \<Longrightarrow>
   save_packagexml opts = Some ''diff'' \<or> save_packagexml opts = Some ''always'' \<or>
     save_packagexml opts = Some ''never'' \<Longrightarrow>
   argsValid opts (existsSync (exampleWorld files))"
  by (auto simp: argsValid_def exampleWorld_def)

lemma ex_retrieve:
  "retrieveManifests pj opts (exampleWorld files) = Inr (''/tmp/t1'', ''/tmp/t2'')"
  by (simp only: retrieveManifests_success) (simp add: exampleWorld_def)

lemma ex_extracted: "extracted (exampleWorld files) = files"
  "now1 (exampleWorld files) = exampleDate" "now2 (exampleWorld files) = exampleDate"
  "fsCopyFile (exampleWorld files) = everyCopy"
  by (simp_all add: exampleWorld_def)

lemma ex_files:
  "exampleFs m1 m2 ''/tmp/t1/package.xml'' = Some (File m1)"
  "exampleFs m1 m2 ''/tmp/t2/package.xml'' = Some (File m2)"
  "exampleFs m1 m2 ''/out/package-1-2026-00-05T09:30:07Z.xml'' = None"
  "exampleFs m1 m2 ''/out/package-2-2026-00-05T09:30:07Z.xml'' = None"
  by (simp_all add: exampleFs_def)

lemma ex_before:
  "savedBefore m1 m2 ''/tmp/t1/package.xml'' = Some (File m1)"
  "savedBefore m1 m2 ''/tmp/t2/package.xml'' = Some (File m2)"
  "savedBefore m1 m2 ''/out/package-1-2026-00-05T09:30:07Z.xml'' = Some (File m1)"
  "savedBefore m1 m2 ''/out/package-2-2026-00-05T09:30:07Z.xml'' = Some (File m2)"
  by (simp_all add: savedBefore_def exampleFs_def)

lemma ex_lines_AB: "lines_of manifestAB = [''<a/>'', ''<b/>'']"
  by (simp add: manifestAB_def)


lemma ex_lines_indented: "lines_of manifestIndented = [''  <a/>'', [CHR 0x09] @ ''<b/> '']"
  by (simp add: manifestIndented_def)

lemma ex_lines_marker: "lines_of manifestWithMarker = [''<a/>'', ''  <namespacePrefix>ns1</namespacePrefix>'', ''<b/>'']"
  by (simp add: manifestWithMarker_def)

lemma ex_lines_other:
  "lines_of manifestOtherMarker = [''<a/>'', ''<namespacePrefix>ns2</namespacePrefix>'', ''<b/>'']"
  by (simp add: manifestOtherMarker_def)

lemma ex_lines_two:
  "lines_of manifestTwoMarkers =
     [''<namespacePrefix>ns1</namespacePrefix>'', ''<a/>'', ''<namespacePrefix>ns_2</namespacePrefix>'']"
  by (simp add: manifestTwoMarkers_def)

lemma ex_re: "re ''  <namespacePrefix>ns1</namespacePrefix>''"
  by (simp add: matchAt_def nsChar_def)

lemma ex_re_other: "re ''<namespacePrefix>ns2</namespacePrefix>''"
  by (simp add: matchAt_def nsChar_def)

lemma ex_re_two: "re ''<namespacePrefix>ns1</namespacePrefix>''" "re ''<namespacePrefix>ns_2</namespacePrefix>''"
  by (simp_all add: matchAt_def nsChar_def)

lemma ex_re_not: "\<not> re ''<a/>''" "\<not> re ''<b/>''" "\<not> re ''<c/>''"
  by (simp_all add: matchAt_def)

lemma ex_plain_AB: "length (filter re (lines_of manifestAB)) \<noteq> 1"
  by (simp add: ex_lines_AB ex_re_not del: re.simps)


lemma ex_plain_indented: "length (filter re (lines_of manifestIndented)) \<noteq> 1"
  by (simp add: ex_lines_indented matchAt_def)

lemma ex_one_marker: "length (filter re (lines_of manifestWithMarker)) = 1"
  by (simp add: ex_lines_marker ex_re ex_re_not del: re.simps)

lemma ex_two_markers: "length (filter re (lines_of manifestTwoMarkers)) = 2"
  by (simp add: ex_lines_two ex_re_two ex_re_not del: re.simps)

lemma ex_trim_indented: "map trim (lines_of manifestAB) = map trim (lines_of manifestIndented)"
  by (simp add: ex_lines_AB ex_lines_indented trim_def isSpace_def)


lemma ex_strip:
  "fs p = Some (File manifestWithMarker) \<Longrightarrow>
   stripMarker fs p manifestWithMarker = fs(p \<mapsto> File manifestAB)"
  by (simp add: stripMarker_def lineNumber_def ex_lines_marker ex_re ex_re_not lineRemove_def
      lineReplace_def manifestAB_def del: re.simps)

lemma ex_strip_other:
  "fs p = Some (File manifestOtherMarker) \<Longrightarrow>
   stripMarker fs p manifestOtherMarker = fs(p \<mapsto> File manifestAB)"
  by (simp add: stripMarker_def lineNumber_def ex_lines_other ex_re_other ex_re_not lineRemove_def
      lineReplace_def manifestAB_def del: re.simps)

lemma inspect_example_plain:
  assumes "packagexml opts = None"
    and "length (filter re (lines_of m1)) \<noteq> 1" and "length (filter re (lines_of m2)) \<noteq> 1"
    and "fs ''/tmp/t1/package.xml'' = Some (File m1)" and "fs ''/tmp/t2/package.xml'' = Some (File m2)"
  shows "inspect slashJoin opts fs ''/tmp/t1'' ''/tmp/t2'' = (Inr [m1, m2], fs)"
proof -
  have p: "getPackageXMLPath slashJoin opts ''/tmp/t1'' = ''/tmp/t1/package.xml''"
    "getPackageXMLPath slashJoin opts ''/tmp/t2'' = ''/tmp/t2/package.xml''"
    using assms(1) by (simp_all add: getPackageXMLPath_def slashJoin_two)
  have r: "readPackageXmls slashJoin opts fs ''/tmp/t1'' ''/tmp/t2'' = Inr [m1, m2]"
    using assms(4,5) by (simp add: readPackageXmls_def p readFile_def)
  have s: "stripMarker fs ''/tmp/t1/package.xml'' m1 = fs" "stripMarker fs ''/tmp/t2/package.xml'' m2 = fs"
    using assms(2,3) by (simp_all add: stripMarker_def lineNumber_count)
  show ?thesis using assms(1) by (simp add: inspect_def r p s)
qed

lemma ex_save_fresh:
  assumes "saveTriggered opts rc" and "save_dir opts = Some ''/out''" and "packagexml opts = None"
  shows "savePackageXmls everyCopy slashJoin opts (exampleFs m1 m2) ''/tmp/t1'' ''/tmp/t2'' exampleDate exampleDate rc =
     (Inr (JArr [JNum rc, JUndefined, JUndefined]),
      (exampleFs m1 m2)(''/out/package-1-2026-00-05T09:30:07Z.xml'' \<mapsto> File m1,
                        ''/out/package-2-2026-00-05T09:30:07Z.xml'' \<mapsto> File m2))"
  using savePackageXmls_success [where opts = opts and rc = rc and dir = "''/out''"
      and fs = "exampleFs m1 m2" and pj = slashJoin and ?t1.0 = "''/tmp/t1''" and ?c1.0 = m1
      and ?t2.0 = "''/tmp/t2''" and ?c2.0 = m2 and ?d1.0 = exampleDate and ?d2.0 = exampleDate
      and cp = everyCopy] assms
  by (simp add: ex_path ex_dest1 ex_dest2 ex_files everyCopy_def)

lemma ex_save_blocked:
  assumes "saveTriggered opts rc" and "save_dir opts = Some ''/out''" and "packagexml opts = None"
  shows "\<exists>err. savePackageXmls everyCopy slashJoin opts (savedBefore m1 m2) ''/tmp/t1'' ''/tmp/t2''
           exampleDate exampleDate rc = (Inl err, savedBefore m1 m2)"
proof -
  let ?fs = "savedBefore m1 m2"
  have "?fs ''/out/package-1-2026-00-05T09:30:07Z.xml'' \<noteq> None" by (simp add: ex_before)
  from copyFile_exists [of ?fs "''/out/package-1-2026-00-05T09:30:07Z.xml''" everyCopy "''/tmp/t1/package.xml''", OF this]
  obtain e1 where 1: "copyFile everyCopy ?fs ''/tmp/t1/package.xml'' ''/out/package-1-2026-00-05T09:30:07Z.xml'' False = (Inl e1, ?fs)"
    by blast
  have "?fs ''/out/package-2-2026-00-05T09:30:07Z.xml'' \<noteq> None" by (simp add: ex_before)
  from copyFile_exists [of ?fs "''/out/package-2-2026-00-05T09:30:07Z.xml''" everyCopy "''/tmp/t2/package.xml''", OF this]
  obtain e2 where 2: "copyFile everyCopy ?fs ''/tmp/t2/package.xml'' ''/out/package-2-2026-00-05T09:30:07Z.xml'' False = (Inl e2, ?fs)"
    by blast
  from assms 1 2 show ?thesis
    by (simp add: savePackageXmls_def ex_path ex_dest1 ex_dest2)
qed

lemma scenario_markers_differ:
  "run slashJoin exampleOptions (exampleWorld (exampleFs manifestWithMarker manifestOtherMarker)) =
     Exit (JNum 0)"
proof -
  let ?fs = "exampleFs manifestWithMarker manifestOtherMarker"
  let ?w = "exampleWorld ?fs"
  let ?p1 = "''/tmp/t1/package.xml''" and ?p2 = "''/tmp/t2/package.xml''"
  have o: "packagexml exampleOptions = None" "save_packagexml exampleOptions = Some ''never''"
    by (simp_all add: exampleOptions_def)
  have p: "getPackageXMLPath slashJoin exampleOptions ''/tmp/t1'' = ?p1"
    "getPackageXMLPath slashJoin exampleOptions ''/tmp/t2'' = ?p2"
    using ex_path [OF o(1)] by simp_all
  have 1: "stripMarker ?fs ?p1 manifestWithMarker = ?fs(?p1 \<mapsto> File manifestAB)"
    using ex_files(1) by (rule ex_strip)
  have "(?fs(?p1 \<mapsto> File manifestAB)) ?p2 = Some (File manifestOtherMarker)"
    by (simp add: ex_files)
  then have 2: "stripMarker (?fs(?p1 \<mapsto> File manifestAB)) ?p2 manifestOtherMarker =
      ?fs(?p1 \<mapsto> File manifestAB, ?p2 \<mapsto> File manifestAB)"
    by (rule ex_strip_other)
  have "readPackageXmls slashJoin exampleOptions ?fs ''/tmp/t1'' ''/tmp/t2'' =
      Inr [manifestWithMarker, manifestOtherMarker]"
    by (simp add: readPackageXmls_def readFile_def p ex_files)
  moreover have "readPackageXmls slashJoin exampleOptions
      (?fs(?p1 \<mapsto> File manifestAB, ?p2 \<mapsto> File manifestAB)) ''/tmp/t1'' ''/tmp/t2'' =
      Inr [manifestAB, manifestAB]"
    by (simp add: readPackageXmls_def readFile_def p)
  ultimately have i: "inspect slashJoin exampleOptions (extracted ?w) ''/tmp/t1'' ''/tmp/t2'' =
      (Inr [manifestAB, manifestAB], ?fs(?p1 \<mapsto> File manifestAB, ?p2 \<mapsto> File manifestAB))"
    by (simp add: inspect_def o(1) p 1 2 ex_extracted)
  have "\<not> saveTriggered exampleOptions (compareContents [manifestAB, manifestAB])"
    by (simp add: saveTriggered_iff o)
  with i ex_retrieve [of slashJoin exampleOptions ?fs]
  have "pipeline slashJoin exampleOptions ?w = Inr (JNum (compareContents [manifestAB, manifestAB]))"
    by (simp add: pipeline_stages savePackageXmls_not_triggered)
  then have "pipeline slashJoin exampleOptions ?w = Inr (JNum 0)" by (simp add: compareContents_eq)
  with ex_args show ?thesis by (rule run_value)
qed

section \<open>The claims\<close>






text \<open>
  C3.  For two manifest texts whose lines are the same after trimming, the filtered output
  of the differ is empty and the result code is 0; when the save policy is not \<^verbatim>\<open>always\<close>
  (so that no save is triggered) the process exits with status 0.
\<close>

theorem identical_manifests:
  assumes "map trim (lines_of a) = map trim (lines_of b)"
  shows "filteredChanges (diffTrimmedLines a b) = [] \<and> compareContents [a, b] = 0 \<and>
         (argsValid opts (existsSync w) \<and> retrieveManifests pj opts w = Inr (t1, t2) \<and>
          inspect pj opts (extracted w) t1 t2 = (Inr [a, b], fs') \<and>
          save_packagexml opts \<noteq> Some ''always''
          \<longrightarrow> run pj opts w = Exit (JNum 0))"
proof (intro conjI impI)
  from assms show "filteredChanges (diffTrimmedLines a b) = []" by (simp only: filteredChanges_diff)
  from assms show c: "compareContents [a, b] = 0" by (simp add: compareContents_eq)
  assume h: "argsValid opts (existsSync w) \<and> retrieveManifests pj opts w = Inr (t1, t2) \<and>
          inspect pj opts (extracted w) t1 t2 = (Inr [a, b], fs') \<and>
          save_packagexml opts \<noteq> Some ''always''"
  then have "\<not> saveTriggered opts (compareContents [a, b])" by (simp add: saveTriggered_iff c)
  with h have "pipeline pj opts w = Inr (JNum (compareContents [a, b]))"
    by (simp add: pipeline_stages savePackageXmls_not_triggered)
  with h c show "run pj opts w = Exit (JNum 0)" by (simp add: run_value)
qed

text \<open>
  The claim as first stated, status 0 for every such pair, fails under the policy \<^verbatim>\<open>always\<close>
  when the copies cannot be written: the failure ends the run with status 1.
\<close>

theorem identical_manifests_counterexample:
  "map trim (lines_of manifestAB) = map trim (lines_of manifestIndented) \<and>
   run slashJoin (exampleOptions\<lparr>save_packagexml := Some ''always''\<rparr>)
     (exampleWorld (savedBefore manifestAB manifestIndented)) = Exit (JNum 1)"
proof -
  let ?opts = "exampleOptions\<lparr>save_packagexml := Some ''always''\<rparr>"
  let ?fs = "savedBefore manifestAB manifestIndented"
  let ?w = "exampleWorld ?fs"
  have o: "packagexml ?opts = None" "save_dir ?opts = Some ''/out''" "save_packagexml ?opts = Some ''always''"
    by (simp_all add: exampleOptions_def)
  have a: "argsValid ?opts (existsSync ?w)"
    by (rule ex_args_valid) (simp_all add: exampleOptions_def)
  have r: "retrieveManifests slashJoin ?opts ?w = Inr (''/tmp/t1'', ''/tmp/t2'')" by (rule ex_retrieve)
  have i: "inspect slashJoin ?opts (extracted ?w) ''/tmp/t1'' ''/tmp/t2'' =
      (Inr [manifestAB, manifestIndented], ?fs)"
    unfolding ex_extracted
    using o(1) ex_plain_AB ex_plain_indented ex_before(1,2) by (rule inspect_example_plain)
  have "saveTriggered ?opts (compareContents [manifestAB, manifestIndented])"
    by (simp add: saveTriggered_iff o)
  from ex_save_blocked [OF this o(2,1), of manifestAB manifestIndented]
  obtain err where "savePackageXmls everyCopy slashJoin ?opts ?fs ''/tmp/t1'' ''/tmp/t2''
      exampleDate exampleDate (compareContents [manifestAB, manifestIndented]) = (Inl err, ?fs)"
    by blast
  with r i have "pipeline slashJoin ?opts ?w = Inl err"
    by (simp add: pipeline_stages ex_extracted)
  with a have "run slashJoin ?opts ?w = Exit (JNum 1)" by (rule run_failure)
  with ex_trim_indented show ?thesis by blast
qed

theorem identical_manifests_witness:
  "filteredChanges (diffTrimmedLines manifestAB manifestIndented) = [] \<and>
   run slashJoin (exampleOptions\<lparr>save_packagexml := Some ''diff''\<rparr>)
     (exampleWorld (exampleFs manifestAB manifestIndented)) = Exit (JNum 0)"
proof -
  let ?opts = "exampleOptions\<lparr>save_packagexml := Some ''diff''\<rparr>"
  let ?fs = "exampleFs manifestAB manifestIndented"
  let ?w = "exampleWorld ?fs"
  have o: "packagexml ?opts = None" "save_packagexml ?opts \<noteq> Some ''always''"
    by (simp_all add: exampleOptions_def)
  have a: "argsValid ?opts (existsSync ?w)"
    by (rule ex_args_valid) (simp_all add: exampleOptions_def)
  have r: "retrieveManifests slashJoin ?opts ?w = Inr (''/tmp/t1'', ''/tmp/t2'')" by (rule ex_retrieve)
  have i: "inspect slashJoin ?opts (extracted ?w) ''/tmp/t1'' ''/tmp/t2'' =
      (Inr [manifestAB, manifestIndented], ?fs)"
    unfolding ex_extracted
    using o(1) ex_plain_AB ex_plain_indented ex_files(1,2) by (rule inspect_example_plain)
  from identical_manifests [OF ex_trim_indented, of ?opts ?w slashJoin "''/tmp/t1''" "''/tmp/t2''" ?fs]
    a r i o(2)
  show ?thesis by blast
qed

text \<open>
  C4.  When exactly one line of a manifest matches the marker pattern (an opening tag, one or
  more letters, digits, hyphens or underscores, and the closing tag, somewhere in the line:
  \<open>re\<close>, see \<open>re_pattern\<close>), the stripped manifest has the same lines without that one: one
  line fewer, no blank line in its place, every other line unchanged and in its order.
\<close>

theorem strip_one_match:
  assumes "fs p = Some (File c)" and "length (filter re (lines_of c)) = 1"
  shows "\<exists>c' i. stripMarker fs p c p = Some (File c') \<and> i < length (lines_of c) \<and>
            re (lines_of c ! i) \<and>
            lines_of c' = take i (lines_of c) @ drop (Suc i) (lines_of c) \<and>
            length (lines_of c') + 1 = length (lines_of c)"
proof -
  from assms(2) have "length (lineNumber c re) = 1" by (simp add: lineNumber_count)
  from stripMarker_removes [of fs p c, OF assms(1) this] obtain i where i: "i < length (lines_of c)"
    "re (lines_of c ! i)"
    "stripMarker fs p c = fs(p \<mapsto> File (unlines (take i (lines_of c) @ drop (Suc i) (lines_of c))))"
    by blast
  let ?ls = "take i (lines_of c) @ drop (Suc i) (lines_of c)"
  have "list_all (\<lambda>l. LF \<notin> set l) ?ls"
    using lines_of_LF_free [of c] by (auto simp: list_all_iff dest: in_set_takeD in_set_dropD)
  then have "lines_of (unlines ?ls) = ?ls" by (rule lines_of_unlines)
  moreover have "length ?ls + 1 = length (lines_of c)" using i(1) by simp
  ultimately show ?thesis using i by (intro exI [of _ "unlines ?ls"] exI [of _ i]) simp
qed

theorem strip_one_match_witness:
  "stripMarker (exampleFs manifestWithMarker manifestAB) ''/tmp/t1/package.xml'' manifestWithMarker =
     (exampleFs manifestWithMarker manifestAB)(''/tmp/t1/package.xml'' \<mapsto> File manifestAB) \<and>
   (\<exists>c'. stripMarker (exampleFs manifestWithMarker manifestAB) ''/tmp/t1/package.xml''
           manifestWithMarker ''/tmp/t1/package.xml'' = Some (File c') \<and>
         lines_of manifestWithMarker = [''<a/>'', ''  <namespacePrefix>ns1</namespacePrefix>'', ''<b/>''] \<and>
         lines_of c' = [''<a/>'', ''<b/>''])"
proof -
  let ?fs = "exampleFs manifestWithMarker manifestAB"
  let ?p = "''/tmp/t1/package.xml''"
  from strip_one_match [of ?fs ?p manifestWithMarker, OF ex_files(1) ex_one_marker]
  obtain c' i where c: "stripMarker ?fs ?p manifestWithMarker ?p = Some (File c')"
    and i: "i < length (lines_of manifestWithMarker)" "re (lines_of manifestWithMarker ! i)"
    and l: "lines_of c' = take i (lines_of manifestWithMarker) @ drop (Suc i) (lines_of manifestWithMarker)"
    by blast
  from i(1) have "i = 0 \<or> i = 1 \<or> i = 2" by (auto simp: ex_lines_marker)
  with i(2) have "i = 1" using ex_re_not by (auto simp: ex_lines_marker simp del: re.simps)
  with l have "lines_of c' = [''<a/>'', ''<b/>'']" by (simp add: ex_lines_marker)
  moreover have "stripMarker ?fs ?p manifestWithMarker = ?fs(?p \<mapsto> File manifestAB)"
    using ex_files(1) by (rule ex_strip)
  ultimately show ?thesis using c ex_lines_marker by blast
qed

text \<open>
  C5.  When no line, or two or more lines, of a manifest match the marker pattern, the
  stripping step leaves the file system, and so the manifest text, as it is.
\<close>

theorem strip_no_single_match:
  assumes "length (filter re (lines_of c)) = 0 \<or> 2 \<le> length (filter re (lines_of c))"
  shows "stripMarker fs p c = fs \<and> readFile (stripMarker fs p c) p = readFile fs p"
proof -
  from assms have "length (lineNumber c re) \<noteq> 1" by (auto simp: lineNumber_count)
  then show ?thesis by (simp add: stripMarker_def)
qed

theorem strip_no_single_match_witness:
  "length (filter re (lines_of manifestAB)) = 0 \<and>
   stripMarker (exampleFs manifestAB manifestTwoMarkers) ''/tmp/t1/package.xml'' manifestAB =
     exampleFs manifestAB manifestTwoMarkers \<and>
   length (filter re (lines_of manifestTwoMarkers)) = 2 \<and>
   stripMarker (exampleFs manifestAB manifestTwoMarkers) ''/tmp/t2/package.xml'' manifestTwoMarkers =
     exampleFs manifestAB manifestTwoMarkers"
proof -
  have 0: "length (filter re (lines_of manifestAB)) = 0"
    by (simp add: ex_lines_AB ex_re_not del: re.simps)
  from 0 strip_no_single_match [of manifestAB "exampleFs manifestAB manifestTwoMarkers" "''/tmp/t1/package.xml''"]
  have "stripMarker (exampleFs manifestAB manifestTwoMarkers) ''/tmp/t1/package.xml'' manifestAB =
     exampleFs manifestAB manifestTwoMarkers" by blast
  moreover from ex_two_markers
    strip_no_single_match [of manifestTwoMarkers "exampleFs manifestAB manifestTwoMarkers" "''/tmp/t2/package.xml''"]
  have "stripMarker (exampleFs manifestAB manifestTwoMarkers) ''/tmp/t2/package.xml'' manifestTwoMarkers =
     exampleFs manifestAB manifestTwoMarkers" by simp
  ultimately show ?thesis using 0 ex_two_markers by blast
qed

text \<open>
  C6.  Stripping is idempotent: stripping the manifest again, with the contents read after
  the first stripping, changes nothing.
\<close>

theorem strip_idempotent:
  assumes "fs p = Some (File c)"
  shows "\<exists>c'. stripMarker fs p c p = Some (File c') \<and>
           stripMarker (stripMarker fs p c) p c' = stripMarker fs p c"
proof (cases "length (lineNumber c re) = 1")
  case True
  from stripMarker_removes [of fs p c, OF assms True] obtain i where i: "i < length (lines_of c)"
    "filter re (take i (lines_of c) @ drop (Suc i) (lines_of c)) = []"
    "stripMarker fs p c = fs(p \<mapsto> File (unlines (take i (lines_of c) @ drop (Suc i) (lines_of c))))"
    by blast
  let ?ls = "take i (lines_of c) @ drop (Suc i) (lines_of c)"
  have "list_all (\<lambda>l. LF \<notin> set l) ?ls"
    using lines_of_LF_free [of c] by (auto simp: list_all_iff dest: in_set_takeD in_set_dropD)
  then have "lines_of (unlines ?ls) = ?ls" by (rule lines_of_unlines)
  with i(2) have "length (lineNumber (unlines ?ls) re) \<noteq> 1" by (simp add: lineNumber_count)
  then have "stripMarker (stripMarker fs p c) p (unlines ?ls) = stripMarker fs p c"
    by (simp add: stripMarker_def)
  with i(3) show ?thesis by simp
next
  case False
  then have "stripMarker fs p c = fs" by (simp add: stripMarker_def)
  with assms show ?thesis by simp
qed

theorem strip_idempotent_witness:
  "\<exists>c'. stripMarker (exampleFs manifestAB manifestWithMarker) ''/tmp/t2/package.xml''
           manifestWithMarker ''/tmp/t2/package.xml'' = Some (File c') \<and>
         stripMarker
           (stripMarker (exampleFs manifestAB manifestWithMarker) ''/tmp/t2/package.xml'' manifestWithMarker)
           ''/tmp/t2/package.xml'' c' =
         stripMarker (exampleFs manifestAB manifestWithMarker) ''/tmp/t2/package.xml'' manifestWithMarker"
  using ex_files(2) by (rule strip_idempotent)

text \<open>
  C7.  For every base directory, the manifest locator returns the join of the base and
  \<^verbatim>\<open>package.xml\<close> when retrieval is driven by a package name (the retrieve command is
  \<^verbatim>\<open>--singlepackage --packagenames\<close>, no explicit manifest), and the join of the base,
  \<^verbatim>\<open>unpackaged\<close> and \<^verbatim>\<open>package.xml\<close> when retrieval is driven by an explicit manifest file
  (\<^verbatim>\<open>--unpackaged\<close>).  Joined with \<^verbatim>\<open>/\<close>, these are \<^verbatim>\<open><base>/package.xml\<close> and
  \<^verbatim>\<open><base>/unpackaged/package.xml\<close>.
\<close>

theorem manifest_location:
  "(\<not> truthy (packagexml opts) \<longrightarrow>
      retrieveCmd opts = ''--singlepackage --packagenames '' @ packagename opts @ '' --wait 100'' \<and>
      getPackageXMLPath pj opts base = pj [base, ''package.xml''] \<and>
      (base \<noteq> [] \<longrightarrow> getPackageXMLPath slashJoin opts base = base @ ''/package.xml'')) \<and>
   (truthy (packagexml opts) \<longrightarrow>
      retrieveCmd opts = ''--unpackaged '' @ case_option [] id (packagexml opts) @ '' --wait 100'' \<and>
      getPackageXMLPath pj opts base = pj [base, ''unpackaged'', ''package.xml''] \<and>
      (base \<noteq> [] \<longrightarrow> getPackageXMLPath slashJoin opts base = base @ ''/unpackaged/package.xml''))"
  by (simp add: retrieveCmd_def getPackageXMLPath_def showNat_wait slashJoin_two slashJoin_three
      del: showNat.simps)

theorem manifest_location_witness:
  "getPackageXMLPath slashJoin exampleOptions ''/tmp/t1'' = ''/tmp/t1/package.xml'' \<and>
   retrieveCmd exampleOptions = ''--singlepackage --packagenames becem --wait 100'' \<and>
   getPackageXMLPath slashJoin (exampleOptions\<lparr>packagexml := Some ''/src/package.xml''\<rparr>) ''/tmp/t1'' =
     ''/tmp/t1/unpackaged/package.xml'' \<and>
   retrieveCmd (exampleOptions\<lparr>packagexml := Some ''/src/package.xml''\<rparr>) =
     ''--unpackaged /src/package.xml --wait 100''"
proof -
  let ?explicit = "exampleOptions\<lparr>packagexml := Some ''/src/package.xml''\<rparr>"
  have byName: "\<not> truthy (packagexml exampleOptions)" and name: "packagename exampleOptions = ''becem''"
    by (simp_all add: exampleOptions_def)
  have byFile: "truthy (packagexml ?explicit)" and manifest: "packagexml ?explicit = Some ''/src/package.xml''"
    by simp_all
  have base: "''/tmp/t1'' \<noteq> []" by simp
  from manifest_location [of exampleOptions slashJoin "''/tmp/t1''"] byName base
  have "getPackageXMLPath slashJoin exampleOptions ''/tmp/t1'' = ''/tmp/t1'' @ ''/package.xml''"
    and "retrieveCmd exampleOptions = ''--singlepackage --packagenames '' @ packagename exampleOptions @ '' --wait 100''"
    by blast+
  moreover from manifest_location [of ?explicit slashJoin "''/tmp/t1''"] byFile base
  have "getPackageXMLPath slashJoin ?explicit ''/tmp/t1'' = ''/tmp/t1'' @ ''/unpackaged/package.xml''"
    and "retrieveCmd ?explicit = ''--unpackaged '' @ case_option [] id (packagexml ?explicit) @ '' --wait 100''"
    by blast+
  ultimately show ?thesis by (simp add: name)
qed

text \<open>
  C8.  The save step writes no file when the policy is \<^verbatim>\<open>never\<close>, and none when the policy is
  \<^verbatim>\<open>diff\<close> and the result code is not 1.  When the policy is \<^verbatim>\<open>always\<close>, or \<^verbatim>\<open>diff\<close> with
  result code 1, it copies both manifests, and exactly two files are written provided that
  the save directory is given, both manifests are files, neither destination exists yet
  (\<^verbatim>\<open>copyFile\<close> is called without \<^verbatim>\<open>force\<close> and refuses to overwrite) and \<^verbatim>\<open>fs.copyFile\<close>
  reports no error for either copy.
\<close>

theorem save_policy:
  "(save_packagexml opts = Some ''never'' \<longrightarrow>
      snd (savePackageXmls cp pj opts fs t1 t2 d1 d2 rc) = fs \<and>
      written fs (snd (savePackageXmls cp pj opts fs t1 t2 d1 d2 rc)) = {}) \<and>
   (save_packagexml opts = Some ''diff'' \<and> rc \<noteq> 1 \<longrightarrow>
      snd (savePackageXmls cp pj opts fs t1 t2 d1 d2 rc) = fs \<and>
      written fs (snd (savePackageXmls cp pj opts fs t1 t2 d1 d2 rc)) = {}) \<and>
   ((save_packagexml opts = Some ''always'' \<or> (save_packagexml opts = Some ''diff'' \<and> rc = 1)) \<and>
    save_dir opts = Some dir \<and>
    fs (getPackageXMLPath pj opts t1) = Some (File c1) \<and>
    fs (getPackageXMLPath pj opts t2) = Some (File c2) \<and>
    fs (saveDest pj dir ''1'' d1) = None \<and> fs (saveDest pj dir ''2'' d2) = None \<and>
    saveDest pj dir ''1'' d1 \<noteq> saveDest pj dir ''2'' d2 \<and>
    cp (getPackageXMLPath pj opts t1) (saveDest pj dir ''1'' d1) \<and>
    cp (getPackageXMLPath pj opts t2) (saveDest pj dir ''2'' d2) \<longrightarrow>
      written fs (snd (savePackageXmls cp pj opts fs t1 t2 d1 d2 rc)) =
        {saveDest pj dir ''1'' d1, saveDest pj dir ''2'' d2} \<and>
      card (written fs (snd (savePackageXmls cp pj opts fs t1 t2 d1 d2 rc))) = 2 \<and>
      snd (savePackageXmls cp pj opts fs t1 t2 d1 d2 rc) (saveDest pj dir ''1'' d1) = Some (File c1) \<and>
      snd (savePackageXmls cp pj opts fs t1 t2 d1 d2 rc) (saveDest pj dir ''2'' d2) = Some (File c2))"
proof (intro conjI impI)
  assume "save_packagexml opts = Some ''never''"
  then have "\<not> saveTriggered opts rc" by (simp add: saveTriggered_iff)
  then show "snd (savePackageXmls cp pj opts fs t1 t2 d1 d2 rc) = fs"
    and "written fs (snd (savePackageXmls cp pj opts fs t1 t2 d1 d2 rc)) = {}"
    by (simp_all add: savePackageXmls_not_triggered written_same)
next
  assume "save_packagexml opts = Some ''diff'' \<and> rc \<noteq> 1"
  then have "\<not> saveTriggered opts rc" by (simp add: saveTriggered_iff)
  then show "snd (savePackageXmls cp pj opts fs t1 t2 d1 d2 rc) = fs"
    and "written fs (snd (savePackageXmls cp pj opts fs t1 t2 d1 d2 rc)) = {}"
    by (simp_all add: savePackageXmls_not_triggered written_same)
next
  assume h: "(save_packagexml opts = Some ''always'' \<or> (save_packagexml opts = Some ''diff'' \<and> rc = 1)) \<and>
    save_dir opts = Some dir \<and>
    fs (getPackageXMLPath pj opts t1) = Some (File c1) \<and>
    fs (getPackageXMLPath pj opts t2) = Some (File c2) \<and>
    fs (saveDest pj dir ''1'' d1) = None \<and> fs (saveDest pj dir ''2'' d2) = None \<and>
    saveDest pj dir ''1'' d1 \<noteq> saveDest pj dir ''2'' d2 \<and>
    cp (getPackageXMLPath pj opts t1) (saveDest pj dir ''1'' d1) \<and>
    cp (getPackageXMLPath pj opts t2) (saveDest pj dir ''2'' d2)"
  then have t: "saveTriggered opts rc" by (simp only: saveTriggered_iff)
  from h have fresh: "fs (saveDest pj dir ''1'' d1) = None" "fs (saveDest pj dir ''2'' d2) = None"
    "saveDest pj dir ''1'' d1 \<noteq> saveDest pj dir ''2'' d2" by blast+
  from h have "save_dir opts = Some dir"
    and "fs (getPackageXMLPath pj opts t1) = Some (File c1)"
    and "fs (getPackageXMLPath pj opts t2) = Some (File c2)"
    and "cp (getPackageXMLPath pj opts t1) (saveDest pj dir ''1'' d1)"
    and "cp (getPackageXMLPath pj opts t2) (saveDest pj dir ''2'' d2)"
    by blast+
  with t fresh have "savePackageXmls cp pj opts fs t1 t2 d1 d2 rc =
      (Inr (JArr [JNum rc, JUndefined, JUndefined]),
       fs(saveDest pj dir ''1'' d1 \<mapsto> File c1, saveDest pj dir ''2'' d2 \<mapsto> File c2))"
    by (intro savePackageXmls_success)
  then have s: "snd (savePackageXmls cp pj opts fs t1 t2 d1 d2 rc) =
      fs(saveDest pj dir ''1'' d1 \<mapsto> File c1, saveDest pj dir ''2'' d2 \<mapsto> File c2)"
    by simp
  show w: "written fs (snd (savePackageXmls cp pj opts fs t1 t2 d1 d2 rc)) =
        {saveDest pj dir ''1'' d1, saveDest pj dir ''2'' d2}"
    unfolding s using fresh by (rule written_two)
  show "card (written fs (snd (savePackageXmls cp pj opts fs t1 t2 d1 d2 rc))) = 2"
    unfolding w using fresh(3) by (rule card_two)
  show "snd (savePackageXmls cp pj opts fs t1 t2 d1 d2 rc) (saveDest pj dir ''1'' d1) = Some (File c1)"
    unfolding s using fresh(3) by simp
  show "snd (savePackageXmls cp pj opts fs t1 t2 d1 d2 rc) (saveDest pj dir ''2'' d2) = Some (File c2)"
    unfolding s by simp
qed

text \<open>
  The claim as first stated, two files whenever the policy is \<^verbatim>\<open>always\<close>, fails when the
  destinations exist already, and when \<^verbatim>\<open>fs.copyFile\<close> reports an error (a save directory that
  cannot be written to, say): nothing is written.
\<close>

theorem save_policy_counterexample:
  "save_packagexml (exampleOptions\<lparr>save_packagexml := Some ''always''\<rparr>) = Some ''always'' \<and>
   written (savedBefore manifestAB manifestAB)
     (snd (savePackageXmls everyCopy slashJoin (exampleOptions\<lparr>save_packagexml := Some ''always''\<rparr>)
        (savedBefore manifestAB manifestAB) ''/tmp/t1'' ''/tmp/t2'' exampleDate exampleDate 0)) = {} \<and>
   card (written (savedBefore manifestAB manifestAB)
     (snd (savePackageXmls everyCopy slashJoin (exampleOptions\<lparr>save_packagexml := Some ''always''\<rparr>)
        (savedBefore manifestAB manifestAB) ''/tmp/t1'' ''/tmp/t2'' exampleDate exampleDate 0))) \<noteq> 2 \<and>
   written (exampleFs manifestAB manifestAB)
     (snd (savePackageXmls noCopy slashJoin (exampleOptions\<lparr>save_packagexml := Some ''always''\<rparr>)
        (exampleFs manifestAB manifestAB) ''/tmp/t1'' ''/tmp/t2'' exampleDate exampleDate 0)) = {}"
proof -
  let ?opts = "exampleOptions\<lparr>save_packagexml := Some ''always''\<rparr>"
  have o: "packagexml ?opts = None" "save_dir ?opts = Some ''/out''" "save_packagexml ?opts = Some ''always''"
    by (simp_all add: exampleOptions_def)
  have t: "saveTriggered ?opts 0" by (simp add: saveTriggered_iff o)
  from ex_save_blocked [OF t o(2,1), of manifestAB manifestAB]
  have "snd (savePackageXmls everyCopy slashJoin ?opts (savedBefore manifestAB manifestAB) ''/tmp/t1'' ''/tmp/t2''
      exampleDate exampleDate 0) = savedBefore manifestAB manifestAB"
    by auto
  moreover
  have "\<exists>err. savePackageXmls noCopy slashJoin ?opts (exampleFs manifestAB manifestAB) ''/tmp/t1'' ''/tmp/t2''
      exampleDate exampleDate 0 = (Inl err, exampleFs manifestAB manifestAB)"
    using t o(2)
    by (rule savePackageXmls_refused [where ?c1.0 = manifestAB and ?c2.0 = manifestAB])
       (simp_all add: ex_path [OF o(1)] ex_dest1 ex_dest2 ex_files noCopy_def)
  then have "snd (savePackageXmls noCopy slashJoin ?opts (exampleFs manifestAB manifestAB) ''/tmp/t1'' ''/tmp/t2''
      exampleDate exampleDate 0) = exampleFs manifestAB manifestAB"
    by auto
  ultimately show ?thesis by (simp add: written_same)
qed

theorem save_policy_witness:
  "written (exampleFs manifestAB manifestAC)
     (snd (savePackageXmls everyCopy slashJoin exampleOptions (exampleFs manifestAB manifestAC)
        ''/tmp/t1'' ''/tmp/t2'' exampleDate exampleDate 1)) = {} \<and>
   written (exampleFs manifestAB manifestAB)
     (snd (savePackageXmls everyCopy slashJoin (exampleOptions\<lparr>save_packagexml := Some ''diff''\<rparr>)
        (exampleFs manifestAB manifestAB) ''/tmp/t1'' ''/tmp/t2'' exampleDate exampleDate 0)) = {} \<and>
   written (exampleFs manifestAB manifestAC)
     (snd (savePackageXmls everyCopy slashJoin (exampleOptions\<lparr>save_packagexml := Some ''diff''\<rparr>)
        (exampleFs manifestAB manifestAC) ''/tmp/t1'' ''/tmp/t2'' exampleDate exampleDate 1)) =
     {''/out/package-1-2026-00-05T09:30:07Z.xml'', ''/out/package-2-2026-00-05T09:30:07Z.xml''} \<and>
   card (written (exampleFs manifestAB manifestAB)
     (snd (savePackageXmls everyCopy slashJoin (exampleOptions\<lparr>save_packagexml := Some ''always''\<rparr>)
        (exampleFs manifestAB manifestAB) ''/tmp/t1'' ''/tmp/t2'' exampleDate exampleDate 0))) = 2"
proof -
  let ?diff = "exampleOptions\<lparr>save_packagexml := Some ''diff''\<rparr>"
  let ?always = "exampleOptions\<lparr>save_packagexml := Some ''always''\<rparr>"
  have never: "save_packagexml exampleOptions = Some ''never''" by (simp add: exampleOptions_def)
  have d: "save_packagexml ?diff = Some ''diff''" "save_dir ?diff = Some ''/out''" "packagexml ?diff = None"
    by (simp_all add: exampleOptions_def)
  have a: "save_packagexml ?always = Some ''always''" "save_dir ?always = Some ''/out''"
    "packagexml ?always = None"
    by (simp_all add: exampleOptions_def)
  have ne: "''/out/package-1-2026-00-05T09:30:07Z.xml'' \<noteq> ''/out/package-2-2026-00-05T09:30:07Z.xml''"
    by simp
  from save_policy [where opts = exampleOptions and pj = slashJoin and cp = everyCopy
      and fs = "exampleFs manifestAB manifestAC" and ?t1.0 = "''/tmp/t1''" and ?t2.0 = "''/tmp/t2''"
      and ?d1.0 = exampleDate and ?d2.0 = exampleDate and rc = 1] never
  have 1: "written (exampleFs manifestAB manifestAC)
     (snd (savePackageXmls everyCopy slashJoin exampleOptions (exampleFs manifestAB manifestAC)
        ''/tmp/t1'' ''/tmp/t2'' exampleDate exampleDate 1)) = {}"
    by blast
  have "(0::int) \<noteq> 1" by simp
  with save_policy [where opts = ?diff and pj = slashJoin and cp = everyCopy
      and fs = "exampleFs manifestAB manifestAB" and ?t1.0 = "''/tmp/t1''" and ?t2.0 = "''/tmp/t2''"
      and ?d1.0 = exampleDate and ?d2.0 = exampleDate and rc = 0] d(1)
  have 2: "written (exampleFs manifestAB manifestAB)
     (snd (savePackageXmls everyCopy slashJoin ?diff (exampleFs manifestAB manifestAB)
        ''/tmp/t1'' ''/tmp/t2'' exampleDate exampleDate 0)) = {}"
    by blast
  from save_policy [where opts = ?diff and rc = 1 and dir = "''/out''" and pj = slashJoin
      and cp = everyCopy
      and fs = "exampleFs manifestAB manifestAC" and ?t1.0 = "''/tmp/t1''" and ?t2.0 = "''/tmp/t2''"
      and ?c1.0 = manifestAB and ?c2.0 = manifestAC and ?d1.0 = exampleDate and ?d2.0 = exampleDate] d ne
  have 3: "written (exampleFs manifestAB manifestAC)
     (snd (savePackageXmls everyCopy slashJoin ?diff (exampleFs manifestAB manifestAC)
        ''/tmp/t1'' ''/tmp/t2'' exampleDate exampleDate 1)) =
     {''/out/package-1-2026-00-05T09:30:07Z.xml'', ''/out/package-2-2026-00-05T09:30:07Z.xml''}"
    by (simp add: ex_path ex_dest1 ex_dest2 ex_files everyCopy_def)
  from save_policy [where opts = ?always and rc = 0 and dir = "''/out''" and pj = slashJoin
      and cp = everyCopy
      and fs = "exampleFs manifestAB manifestAB" and ?t1.0 = "''/tmp/t1''" and ?t2.0 = "''/tmp/t2''"
      and ?c1.0 = manifestAB and ?c2.0 = manifestAB and ?d1.0 = exampleDate and ?d2.0 = exampleDate] a ne
  have 4: "card (written (exampleFs manifestAB manifestAB)
     (snd (savePackageXmls everyCopy slashJoin ?always (exampleFs manifestAB manifestAB)
        ''/tmp/t1'' ''/tmp/t2'' exampleDate exampleDate 0))) = 2"
    by (simp add: ex_path ex_dest1 ex_dest2 ex_files everyCopy_def)
  from 1 2 3 4 show ?thesis by blast
qed

text \<open>
  C9.  When a save takes place, the first manifest is copied to
  \<^verbatim>\<open>package-1-<timestamp>.xml\<close> and the second to \<^verbatim>\<open>package-2-<timestamp>.xml\<close> in the save
  directory, and nothing else is written: when both manifests are files, neither
  destination exists and \<^verbatim>\<open>fs.copyFile\<close> reports no error, the file system afterwards is the
  one before with these two files added, each holding the text of its manifest.  Whatever
  the outcome of the copies, no other path is written.  The timestamp has the form
  \<^verbatim>\<open>YYYY-MM-DDTHH:MM:SSZ\<close>, built from the UTC fields with two-digit zero-padded fields, and
  its month field is the zero-based month value, one less than the calendar month.
\<close>

theorem saved_file_names:
  assumes "validDate d1" and "validDate d2" and "save_dir opts = Some dir"
  shows "(saveTriggered opts rc \<and>
          fs (getPackageXMLPath pj opts t1) = Some (File c1) \<and>
          fs (getPackageXMLPath pj opts t2) = Some (File c2) \<and>
          fs (pj [dir, ''package-1-'' @ getTimestamp d1 @ ''.xml'']) = None \<and>
          fs (pj [dir, ''package-2-'' @ getTimestamp d2 @ ''.xml'']) = None \<and>
          pj [dir, ''package-1-'' @ getTimestamp d1 @ ''.xml''] \<noteq>
            pj [dir, ''package-2-'' @ getTimestamp d2 @ ''.xml''] \<and>
          cp (getPackageXMLPath pj opts t1) (pj [dir, ''package-1-'' @ getTimestamp d1 @ ''.xml'']) \<and>
          cp (getPackageXMLPath pj opts t2) (pj [dir, ''package-2-'' @ getTimestamp d2 @ ''.xml''])
          \<longrightarrow>
            snd (savePackageXmls cp pj opts fs t1 t2 d1 d2 rc) =
              fs(pj [dir, ''package-1-'' @ getTimestamp d1 @ ''.xml''] \<mapsto> File c1,
                 pj [dir, ''package-2-'' @ getTimestamp d2 @ ''.xml''] \<mapsto> File c2) \<and>
            written fs (snd (savePackageXmls cp pj opts fs t1 t2 d1 d2 rc)) =
              {pj [dir, ''package-1-'' @ getTimestamp d1 @ ''.xml''],
               pj [dir, ''package-2-'' @ getTimestamp d2 @ ''.xml'']}) \<and>
         written fs (snd (savePackageXmls cp pj opts fs t1 t2 d1 d2 rc)) \<subseteq>
           {pj [dir, ''package-1-'' @ getTimestamp d1 @ ''.xml''],
            pj [dir, ''package-2-'' @ getTimestamp d2 @ ''.xml'']} \<and>
         getTimestamp d1 = specTimestamp d1 \<and> getTimestamp d2 = specTimestamp d2 \<and>
         isTimestamp (getTimestamp d1) \<and> isTimestamp (getTimestamp d2)"
proof -
  let ?p1 = "pj [dir, ''package-1-'' @ getTimestamp d1 @ ''.xml'']"
  let ?p2 = "pj [dir, ''package-2-'' @ getTimestamp d2 @ ''.xml'']"
  let ?after = "snd (savePackageXmls cp pj opts fs t1 t2 d1 d2 rc)"
  have n: "saveDest pj dir ''1'' d1 = ?p1" "saveDest pj dir ''2'' d2 = ?p2"
    by (simp_all add: saveDest_def)
  have saved: "?after = fs(?p1 \<mapsto> File c1, ?p2 \<mapsto> File c2) \<and> written fs ?after = {?p1, ?p2}"
    if h: "saveTriggered opts rc \<and>
          fs (getPackageXMLPath pj opts t1) = Some (File c1) \<and>
          fs (getPackageXMLPath pj opts t2) = Some (File c2) \<and>
          fs ?p1 = None \<and> fs ?p2 = None \<and> ?p1 \<noteq> ?p2 \<and>
          cp (getPackageXMLPath pj opts t1) ?p1 \<and> cp (getPackageXMLPath pj opts t2) ?p2"
  proof -
    from h have fresh: "fs ?p1 = None" "fs ?p2 = None" "?p1 \<noteq> ?p2" by blast+
    from h have "saveTriggered opts rc"
      and "fs (getPackageXMLPath pj opts t1) = Some (File c1)"
      and "fs (getPackageXMLPath pj opts t2) = Some (File c2)"
      and "cp (getPackageXMLPath pj opts t1) ?p1" and "cp (getPackageXMLPath pj opts t2) ?p2"
      by blast+
    with assms(3) fresh have "savePackageXmls cp pj opts fs t1 t2 d1 d2 rc =
        (Inr (JArr [JNum rc, JUndefined, JUndefined]),
         fs(saveDest pj dir ''1'' d1 \<mapsto> File c1, saveDest pj dir ''2'' d2 \<mapsto> File c2))"
      by (intro savePackageXmls_success) (simp_all add: n)
    then have s: "?after = fs(?p1 \<mapsto> File c1, ?p2 \<mapsto> File c2)" by (simp add: n)
    have "written fs (fs(?p1 \<mapsto> File c1, ?p2 \<mapsto> File c2)) = {?p1, ?p2}"
      using fresh by (rule written_two)
    with s show ?thesis by simp
  qed
  have "written fs ?after \<subseteq> {saveDest pj dir ''1'' d1, saveDest pj dir ''2'' d2}"
    using assms(3) by (intro written_subset savePackageXmls_frame)
  then have bound: "written fs ?after \<subseteq> {?p1, ?p2}" by (simp only: n)
  have ts: "getTimestamp d1 = specTimestamp d1" "getTimestamp d2 = specTimestamp d2"
    using assms(1,2) by (simp_all only: getTimestamp_spec)
  have shape: "isTimestamp (getTimestamp d1)" "isTimestamp (getTimestamp d2)"
    using assms(1,2) by (simp_all only: isTimestamp_getTimestamp)
  from saved bound ts shape show ?thesis by blast
qed

theorem saved_file_names_witness:
  "snd (savePackageXmls everyCopy slashJoin (exampleOptions\<lparr>save_packagexml := Some ''always''\<rparr>)
        (exampleFs manifestAB manifestAC) ''/tmp/t1'' ''/tmp/t2'' exampleDate exampleDate 1) =
     (exampleFs manifestAB manifestAC)
       (''/out/package-1-2026-00-05T09:30:07Z.xml'' \<mapsto> File manifestAB,
        ''/out/package-2-2026-00-05T09:30:07Z.xml'' \<mapsto> File manifestAC) \<and>
   written (exampleFs manifestAB manifestAC)
     (snd (savePackageXmls everyCopy slashJoin (exampleOptions\<lparr>save_packagexml := Some ''always''\<rparr>)
        (exampleFs manifestAB manifestAC) ''/tmp/t1'' ''/tmp/t2'' exampleDate exampleDate 1)) =
     {''/out/package-1-2026-00-05T09:30:07Z.xml'', ''/out/package-2-2026-00-05T09:30:07Z.xml''} \<and>
   getTimestamp exampleDate = ''2026-00-05T09:30:07Z'' \<and>
   calendarMonth exampleDate = 1 \<and>
   isTimestamp ''2026-00-05T09:30:07Z''"
proof -
  let ?opts = "exampleOptions\<lparr>save_packagexml := Some ''always''\<rparr>"
  let ?fs = "exampleFs manifestAB manifestAC"
  let ?after = "snd (savePackageXmls everyCopy slashJoin ?opts ?fs ''/tmp/t1'' ''/tmp/t2''
      exampleDate exampleDate 1)"
  have o: "save_dir ?opts = Some ''/out''" "packagexml ?opts = None"
    "save_packagexml ?opts = Some ''always''"
    by (simp_all add: exampleOptions_def)
  have t: "saveTriggered ?opts 1" by (simp add: saveTriggered_iff o)
  have j1: "slashJoin [''/out'', ''package-1-'' @ getTimestamp exampleDate @ ''.xml''] =
      ''/out/package-1-2026-00-05T09:30:07Z.xml''"
    and j2: "slashJoin [''/out'', ''package-2-'' @ getTimestamp exampleDate @ ''.xml''] =
      ''/out/package-2-2026-00-05T09:30:07Z.xml''"
    by (simp_all add: ex_ts slashJoin_two)
  have m: "calendarMonth exampleDate = 1" by (simp add: calendarMonth_def exampleDate_def)
  have src: "?fs (getPackageXMLPath slashJoin ?opts ''/tmp/t1'') = Some (File manifestAB)"
    "?fs (getPackageXMLPath slashJoin ?opts ''/tmp/t2'') = Some (File manifestAC)"
    using ex_path [OF o(2)] by (simp_all add: ex_files)
  have fresh: "?fs ''/out/package-1-2026-00-05T09:30:07Z.xml'' = None"
    "?fs ''/out/package-2-2026-00-05T09:30:07Z.xml'' = None"
    "''/out/package-1-2026-00-05T09:30:07Z.xml'' \<noteq> ''/out/package-2-2026-00-05T09:30:07Z.xml''"
    by (simp_all add: ex_files)
  have cp: "\<And>src dest. everyCopy src dest" by (simp add: everyCopy_def)
  from saved_file_names [OF ex_valid ex_valid o(1), where rc = 1 and fs = ?fs and pj = slashJoin
      and ?t1.0 = "''/tmp/t1''" and ?t2.0 = "''/tmp/t2''" and ?c1.0 = manifestAB
      and ?c2.0 = manifestAC and cp = everyCopy, unfolded j1 j2] t src fresh cp
  have s: "?after = ?fs(''/out/package-1-2026-00-05T09:30:07Z.xml'' \<mapsto> File manifestAB,
        ''/out/package-2-2026-00-05T09:30:07Z.xml'' \<mapsto> File manifestAC)"
    and w: "written ?fs ?after =
      {''/out/package-1-2026-00-05T09:30:07Z.xml'', ''/out/package-2-2026-00-05T09:30:07Z.xml''}"
    and i: "isTimestamp (getTimestamp exampleDate)"
    by blast+
  from i have "isTimestamp ''2026-00-05T09:30:07Z''" by (simp only: ex_ts)
  with s w m ex_ts show ?thesis by blast
qed

text \<open>
  C10.  Whenever the save policy triggers a save (policy \<^verbatim>\<open>always\<close>, or policy \<^verbatim>\<open>diff\<close> with
  result code 1) and the chain reaches its last step, the value handed to \<^verbatim>\<open>process.exit\<close>
  is the three-element array of \<^verbatim>\<open>Promise.all\<close>: the result code followed by two
  \<^verbatim>\<open>undefined\<close>.  Only when no save takes place is it the bare result code.
\<close>

theorem exit_value_after_save:
  assumes "argsValid opts (existsSync w)"
    and "retrieveManifests pj opts w = Inr (t1, t2)"
    and "inspect pj opts (extracted w) t1 t2 = (Inr fileContents, fs')"
    and "savePackageXmls (fsCopyFile w) pj opts fs' t1 t2 (now1 w) (now2 w) (compareContents fileContents) = (Inr v, fs'')"
  shows "run pj opts w = Exit v \<and>
         v = (if save_packagexml opts = Some ''always'' \<or>
                 (save_packagexml opts = Some ''diff'' \<and> compareContents fileContents = 1)
              then JArr [JNum (compareContents fileContents), JUndefined, JUndefined]
              else JNum (compareContents fileContents))"
proof -
  from assms(2,3,4) have "pipeline pj opts w = Inr v"
    by (simp add: pipeline_stages)
  with assms(1) have "run pj opts w = Exit v" by (rule run_value)
  moreover from assms(4)
  have "v = (if saveTriggered opts (compareContents fileContents)
             then JArr [JNum (compareContents fileContents), JUndefined, JUndefined]
             else JNum (compareContents fileContents))"
    by (rule savePackageXmls_value)
  ultimately show ?thesis by (simp only: saveTriggered_iff) 
qed

theorem exit_value_after_save_witness:
  "run slashJoin (exampleOptions\<lparr>save_packagexml := Some ''always''\<rparr>)
     (exampleWorld (exampleFs manifestAB manifestAB)) = Exit (JArr [JNum 0, JUndefined, JUndefined]) \<and>
   run slashJoin exampleOptions (exampleWorld (exampleFs manifestAB manifestAB)) = Exit (JNum 0)"
proof -
  let ?opts = "exampleOptions\<lparr>save_packagexml := Some ''always''\<rparr>"
  let ?fs = "exampleFs manifestAB manifestAB"
  let ?w = "exampleWorld ?fs"
  have o: "packagexml ?opts = None" "save_dir ?opts = Some ''/out''" "save_packagexml ?opts = Some ''always''"
    by (simp_all add: exampleOptions_def)
  have n: "packagexml exampleOptions = None" "save_packagexml exampleOptions = Some ''never''"
    by (simp_all add: exampleOptions_def)
  have a: "argsValid ?opts (existsSync ?w)"
    by (rule ex_args_valid) (simp_all add: exampleOptions_def)
  have r: "retrieveManifests slashJoin ?opts ?w = Inr (''/tmp/t1'', ''/tmp/t2'')" by (rule ex_retrieve)
  have i: "inspect slashJoin ?opts (extracted ?w) ''/tmp/t1'' ''/tmp/t2'' = (Inr [manifestAB, manifestAB], ?fs)"
    unfolding ex_extracted using o(1) ex_plain_AB ex_plain_AB ex_files(1,2) by (rule inspect_example_plain)
  have c: "compareContents [manifestAB, manifestAB] = 0" by (simp add: compareContents_eq)
  have t: "saveTriggered ?opts 0" by (simp add: saveTriggered_iff o)
  have s: "savePackageXmls (fsCopyFile ?w) slashJoin ?opts ?fs ''/tmp/t1'' ''/tmp/t2''
      (now1 ?w) (now2 ?w) (compareContents [manifestAB, manifestAB]) =
     (Inr (JArr [JNum 0, JUndefined, JUndefined]),
      ?fs(''/out/package-1-2026-00-05T09:30:07Z.xml'' \<mapsto> File manifestAB,
          ''/out/package-2-2026-00-05T09:30:07Z.xml'' \<mapsto> File manifestAB))"
    unfolding c ex_extracted using t o(2,1) by (rule ex_save_fresh)
  from exit_value_after_save [OF a r i s]
  have saved: "run slashJoin ?opts ?w = Exit (JArr [JNum 0, JUndefined, JUndefined])" by blast
  have r': "retrieveManifests slashJoin exampleOptions ?w = Inr (''/tmp/t1'', ''/tmp/t2'')"
    by (rule ex_retrieve)
  have i': "inspect slashJoin exampleOptions (extracted ?w) ''/tmp/t1'' ''/tmp/t2'' =
      (Inr [manifestAB, manifestAB], ?fs)"
    unfolding ex_extracted using n(1) ex_plain_AB ex_plain_AB ex_files(1,2) by (rule inspect_example_plain)
  have "\<not> saveTriggered exampleOptions (compareContents [manifestAB, manifestAB])"
    by (simp add: saveTriggered_iff n)
  then have s': "savePackageXmls (fsCopyFile ?w) slashJoin exampleOptions ?fs ''/tmp/t1'' ''/tmp/t2''
      (now1 ?w) (now2 ?w) (compareContents [manifestAB, manifestAB]) =
     (Inr (JNum (compareContents [manifestAB, manifestAB])), ?fs)"
    by (rule savePackageXmls_not_triggered)
  from exit_value_after_save [OF ex_args r' i' s']
  have "run slashJoin exampleOptions ?w = Exit (JNum (compareContents [manifestAB, manifestAB]))"
    by blast
  with saved c show ?thesis by simp
qed

end
